theory Spec2Isabelle
  imports Complex_Main "HOL-Library.Sublist" "HOL-Library.Char_ord" "HOL-Library.List_Lexorder"
begin

section \<open>Conventions\<close>

text \<open>
  The development embeds the context and session management classes of
  \<^verbatim>\<open>src/index.ts\<close>: \<^verbatim>\<open>ConversationHistoryManager\<close>, \<^verbatim>\<open>ContextManager\<close>,
  \<^verbatim>\<open>ProviderCallManager\<close> and \<^verbatim>\<open>AICollaborationServer.retryWithBackoff\<close>.

  \<^item> A \<^verbatim>\<open>Date\<close> is the integer number of milliseconds since the epoch
    (\<^verbatim>\<open>getTime()\<close>); every function that reads the clock takes the instant \<open>now\<close>
    as an argument. Where the code computes with local time (\<^verbatim>\<open>getHours\<close>,
    \<^verbatim>\<open>setHours\<close>), the time zone is an argument as well.
  \<^item> A mutable object is passed in and returned: a method that mutates \<^verbatim>\<open>this\<close>
    returns the new state next to its result.
  \<^item> What the file system answers is an argument too (a read that fails is \<open>None\<close>).
  \<^item> A JavaScript string is a \<^typ>\<open>string\<close>; the model covers ASCII text, where
    a character, a byte and a UTF-16 code unit coincide.
\<close>

section \<open>Strings\<close>

text \<open>\<^verbatim>\<open>String.prototype.toLowerCase\<close>, on ASCII letters.\<close>

definition lowerChar :: "char \<Rightarrow> char" where
  "lowerChar c =
     (case map_of (zip ''ABCDEFGHIJKLMNOPQRSTUVWXYZ'' ''abcdefghijklmnopqrstuvwxyz'') c of
        None \<Rightarrow> c
      | Some d \<Rightarrow> d)"

definition toLowerCase :: "string \<Rightarrow> string" where
  "toLowerCase s = map lowerChar s"

text \<open>\<^verbatim>\<open>s.includes(t)\<close>: \<open>t\<close> occurs in \<open>s\<close> as a contiguous run.\<close>

definition includesStr :: "string \<Rightarrow> string \<Rightarrow> bool" where
  "includesStr s t = sublist t s"

text \<open>\<^verbatim>\<open>xs.join(sep)\<close>\<close>

fun join :: "string \<Rightarrow> string list \<Rightarrow> string" where
  "join sep [] = []"
| "join sep [x] = x"
| "join sep (x # y # ys) = x @ sep @ join sep (y # ys)"

text \<open>
  The white space of the regular expression \<^verbatim>\<open>\s\<close> that ASCII has: space, tab,
  line feed, vertical tab, form feed, carriage return.
\<close>

definition isSpace :: "char \<Rightarrow> bool" where
  "isSpace c \<longleftrightarrow> c \<in> set [CHR '' '', CHR 0x09, CHR 0x0A, CHR 0x0B, CHR 0x0C, CHR 0x0D]"

text \<open>
  \<^verbatim>\<open>s.split(/\s+/)\<close>: the pieces between maximal runs of white space. A string that
  starts or ends with white space has an empty first or last piece, and the empty string
  has the one piece \<open>[]\<close>. The first argument is the piece read so far, reversed.
\<close>

function splitWs :: "string \<Rightarrow> string \<Rightarrow> string list" where
  "splitWs acc [] = [rev acc]"
| "splitWs acc (c # cs) =
     (if isSpace c then rev acc # splitWs [] (dropWhile isSpace cs)
      else splitWs (c # acc) cs)"
  by pat_completeness auto
termination
  by (relation "measure (\<lambda>(acc, s). length s)")
     (auto simp: length_dropWhile_le le_imp_less_Suc)

text \<open>
  \<^verbatim>\<open>s.split(sep)\<close> for a string \<open>sep\<close>: the string is scanned from the left, and each
  occurrence of \<open>sep\<close> found ends a piece and is skipped. With the empty separator
  JavaScript splits into single characters.
\<close>

function splitOn :: "string \<Rightarrow> string \<Rightarrow> string \<Rightarrow> string list" where
  "splitOn sep acc [] = [rev acc]"
| "splitOn sep acc (c # cs) =
     (if sep \<noteq> [] \<and> prefix sep (c # cs)
      then rev acc # splitOn sep [] (drop (length sep) (c # cs))
      else splitOn sep (c # acc) cs)"
  by pat_completeness auto
termination
  by (relation "measure (\<lambda>(sep, acc, s). length s)") auto

definition split :: "string \<Rightarrow> string \<Rightarrow> string list" where
  "split sep s = (if sep = [] then map (\<lambda>c. [c]) s else splitOn sep [] s)"

section \<open>ConversationHistoryManager\<close>

record ConversationEntry =
  timestamp :: int
  tool :: string
  provider :: string
  query :: string
  response :: string
  contextFiles :: "string list"
  tokenCount :: int

definition MAX_HISTORY_ENTRIES :: nat where
  "MAX_HISTORY_ENTRIES = 20"

definition MAX_AGE_HOURS :: int where
  "MAX_AGE_HOURS = 24"

definition CONTEXT_FRESHNESS_HOURS :: int where
  "CONTEXT_FRESHNESS_HOURS = 6"

text \<open>
  A time zone, as ECMAScript sees it through \<^verbatim>\<open>LocalTZA\<close>: the offset of local time
  from UTC in milliseconds, once for a UTC instant and once for a local time value. In a
  zone with daylight saving the two change at a transition; in a zone without, both are
  one constant.
\<close>

record TimeZone =
  offsetAtUTC :: "int \<Rightarrow> int"
  offsetAtLocal :: "int \<Rightarrow> int"

text \<open>The abstract operations \<^verbatim>\<open>LocalTime(t)\<close> and \<^verbatim>\<open>UTC(t)\<close> of ECMAScript.\<close>

definition LocalTime :: "TimeZone \<Rightarrow> int \<Rightarrow> int" where
  "LocalTime tz t = t + offsetAtUTC tz t"

definition UTC :: "TimeZone \<Rightarrow> int \<Rightarrow> int" where
  "UTC tz t = t - offsetAtLocal tz t"

text \<open>
  \<^verbatim>\<open>d = new Date(); d.setHours(d.getHours() - h)\<close>: \<^verbatim>\<open>getHours\<close> and
  \<^verbatim>\<open>setHours\<close> work on local time, so the new value of \<open>d\<close> is the instant whose
  local time is \<open>h\<close> hours of wall-clock time before the local time of \<open>now\<close>.
\<close>

definition hoursBefore :: "TimeZone \<Rightarrow> int \<Rightarrow> int \<Rightarrow> int" where
  "hoursBefore tz now h = UTC tz (LocalTime tz now - h * 3600000)"

text \<open>
  What \<^verbatim>\<open>HISTORY_FILE\<close> holds: nothing (\<^verbatim>\<open>existsSync\<close> is false), something that
  \<^verbatim>\<open>readFile\<close> or \<^verbatim>\<open>JSON.parse\<close> rejects, or an array of entries.
\<close>

datatype HistoryFile = Missing | Unreadable | Stored "ConversationEntry list"

text \<open>
  The manager: the array \<^verbatim>\<open>this.history\<close>, the content of the file, and the arrays
  handed to \<^verbatim>\<open>writeFile\<close> so far, oldest first.
\<close>

record HistoryManager =
  history :: "ConversationEntry list"
  fileContent :: HistoryFile
  writes :: "ConversationEntry list list"

definition new_HistoryManager :: "HistoryFile \<Rightarrow> HistoryManager" where
  "new_HistoryManager f = \<lparr>history = [], fileContent = f, writes = []\<rparr>"

text \<open>
  \<^verbatim>\<open>persistHistory\<close> hands the whole array to \<^verbatim>\<open>writeFile\<close>. \<open>ok\<close> tells whether
  the write succeeds; a failure is caught and logged, and the file stays as it was.
\<close>

definition persistHistory :: "bool \<Rightarrow> HistoryManager \<Rightarrow> HistoryManager" where
  "persistHistory ok st =
     st\<lparr>writes := writes st @ [history st],
        fileContent := (if ok then Stored (history st) else fileContent st)\<rparr>"

text \<open>
  \<^verbatim>\<open>addEntry\<close>: \<^verbatim>\<open>{...entry, timestamp: new Date()}\<close> is put at the front
  (\<^verbatim>\<open>unshift\<close>), the array is cut to its first 20 when longer, and persisted.
\<close>

definition addEntry :: "bool \<Rightarrow> int \<Rightarrow> ConversationEntry \<Rightarrow> HistoryManager \<Rightarrow> HistoryManager" where
  "addEntry ok now entry st =
     (let newEntry = entry\<lparr>timestamp := now\<rparr>;
          h = newEntry # history st;
          h' = (if length h > MAX_HISTORY_ENTRIES then take MAX_HISTORY_ENTRIES h else h)
      in persistHistory ok (st\<lparr>history := h'\<rparr>))"

text \<open>
  \<^verbatim>\<open>loadHistory\<close>: with no file nothing happens; a file that cannot be read or parsed
  empties the history (the \<^verbatim>\<open>catch\<close>); otherwise the entries newer than the cutoff
  are kept, and persisted when the filter dropped any.
\<close>

definition loadHistory :: "TimeZone \<Rightarrow> bool \<Rightarrow> int \<Rightarrow> HistoryManager \<Rightarrow> HistoryManager" where
  "loadHistory tz ok now st =
     (case fileContent st of
        Missing \<Rightarrow> st
      | Unreadable \<Rightarrow> st\<lparr>history := []\<rparr>
      | Stored allEntries \<Rightarrow>
          (let cutoffDate = hoursBefore tz now MAX_AGE_HOURS;
               st' = st\<lparr>history := filter (\<lambda>entry. timestamp entry > cutoffDate) allEntries\<rparr>
           in if length allEntries \<noteq> length (history st')
              then persistHistory ok st'
              else st'))"

definition getRecentHistory :: "TimeZone \<Rightarrow> int \<Rightarrow> nat \<Rightarrow> HistoryManager \<Rightarrow> ConversationEntry list" where
  "getRecentHistory tz now limit st =
     (let freshnessCutoff = hoursBefore tz now CONTEXT_FRESHNESS_HOURS;
          freshEntries = filter (\<lambda>entry. timestamp entry > freshnessCutoff) (history st)
      in take limit freshEntries)"

definition STOP_WORDS :: "string list" where
  "STOP_WORDS = [''that'', ''this'', ''with'', ''from'', ''they'', ''were'', ''been'',
                 ''have'', ''will'', ''would'', ''could'', ''should'']"

definition extractKeywords :: "string \<Rightarrow> string list" where
  "extractKeywords text =
     filter (\<lambda>word. word \<notin> set STOP_WORDS)
       (filter (\<lambda>word. length word > 3) (splitWs [] (toLowerCase text)))"

text \<open>
  The quotient is a JavaScript number. It is modelled as the exact quotient: both counts
  are lengths of arrays, and on such operands the comparison with 0.3 below has the
  same outcome in double precision as in exact arithmetic.
\<close>

definition calculateRelevance :: "string \<Rightarrow> string list \<Rightarrow> real" where
  "calculateRelevance content keywords =
     (let contentLower = toLowerCase content;
          matches = filter (\<lambda>keyword. includesStr contentLower keyword) keywords
      in real (length matches) / real (max (length keywords) 1))"

definition toolMatch :: "ConversationEntry \<Rightarrow> string \<Rightarrow> real" where
  "toolMatch entry t = (if tool entry = t then 2 else 1)"

definition weightedScore :: "string list \<Rightarrow> string \<Rightarrow> ConversationEntry \<Rightarrow> real" where
  "weightedScore keywords t entry =
     toolMatch entry t * calculateRelevance (query entry @ '' '' @ response entry) keywords"

definition getRelevantHistory ::
  "TimeZone \<Rightarrow> int \<Rightarrow> string \<Rightarrow> string \<Rightarrow> nat \<Rightarrow> HistoryManager \<Rightarrow> ConversationEntry list" where
  "getRelevantHistory tz now q t maxEntries st =
     (let freshEntries = getRecentHistory tz now 10 st;
          keywords = extractKeywords q
      in take maxEntries (filter (\<lambda>entry. weightedScore keywords t entry > 0.3) freshEntries))"

text \<open>
  \<^verbatim>\<open>addEntry\<close> called once per element of a list, in order; each element gives the
  outcome of the write, the instant of the call and the entry.
\<close>

fun addEntries :: "(bool \<times> int \<times> ConversationEntry) list \<Rightarrow> HistoryManager \<Rightarrow> HistoryManager" where
  "addEntries [] st = st"
| "addEntries ((ok, now, e) # es) st = addEntries es (addEntry ok now e st)"

text \<open>The entry that \<^verbatim>\<open>addEntry\<close> stores for a call at \<open>now\<close>.\<close>

definition stamped :: "bool \<times> int \<times> ConversationEntry \<Rightarrow> ConversationEntry" where
  "stamped c = (case c of (ok, now, e) \<Rightarrow> e\<lparr>timestamp := now\<rparr>)"

text \<open>
  The states of a manager whose file holds at most 20 entries when the manager is
  created, as every file that a manager has written does: the state the constructor
  leaves, and any state that \<^verbatim>\<open>loadHistory\<close> or \<^verbatim>\<open>addEntry\<close> leaves.
\<close>

definition storedCount :: "HistoryFile \<Rightarrow> nat" where
  "storedCount f = (case f of Stored es \<Rightarrow> length es | _ \<Rightarrow> 0)"

inductive managed :: "HistoryManager \<Rightarrow> bool" where
  m_new: "storedCount f \<le> MAX_HISTORY_ENTRIES \<Longrightarrow> managed (new_HistoryManager f)"
| m_load: "managed st \<Longrightarrow> managed (loadHistory tz ok now st)"
| m_add: "managed st \<Longrightarrow> managed (addEntry ok now entry st)"

text \<open>
  The scenario of 25 sequential entries: call \<open>i\<close> happens at instant \<open>i\<close> and carries
  \<open>i\<close> as its token count.
\<close>

definition sampleCall :: "nat \<Rightarrow> bool \<times> int \<times> ConversationEntry" where
  "sampleCall i =
     (True, int i,
      \<lparr>timestamp = 0, tool = ''consult_ai'', provider = ''claude'', query = ''question'',
       response = ''answer'', contextFiles = [], tokenCount = int i\<rparr>)"

text \<open>
  Two entries answering the same question with the same text, the newer one recorded by
  another tool, and a manager holding just these two.
\<close>

definition crossEntry :: ConversationEntry where
  "crossEntry =
     \<lparr>timestamp = 1000, tool = ''multi_ai_research'', provider = ''multiple'',
      query = ''database schema design'', response = ''Use a relational schema'',
      contextFiles = [], tokenCount = 12\<rparr>"

definition sameEntry :: ConversationEntry where
  "sameEntry =
     \<lparr>timestamp = 900, tool = ''consult_ai'', provider = ''claude'',
      query = ''database schema design'', response = ''Use a relational schema'',
      contextFiles = [], tokenCount = 12\<rparr>"

definition twoEntries :: HistoryManager where
  "twoEntries = \<lparr>history = [crossEntry, sameEntry], fileContent = Missing, writes = []\<rparr>"

text \<open>
  A manager before its load, over a file with one entry written at instant 5 and one
  written at instant 90000000.
\<close>

definition staleFile :: HistoryManager where
  "staleFile =
     new_HistoryManager (Stored [stamped (sampleCall 5), stamped (sampleCall 90000000)])"

text \<open>
  Sample zones. \<open>utcZone\<close> has offset 0 throughout. \<open>easternZone\<close> is US Eastern time
  around the end of daylight saving at \<open>dstEnd\<close>, 2024-11-03 06:00 UTC: four hours behind
  UTC before, five hours behind from then on; a local time of the repeated hour is taken
  as the earlier instant.
\<close>

definition utcZone :: TimeZone where
  "utcZone = \<lparr>offsetAtUTC = (\<lambda>t. 0), offsetAtLocal = (\<lambda>t. 0)\<rparr>"

definition dstEnd :: int where
  "dstEnd = 1730613600000"

definition easternZone :: TimeZone where
  "easternZone =
     \<lparr>offsetAtUTC = (\<lambda>t. if t < dstEnd then - 14400000 else - 18000000),
      offsetAtLocal = (\<lambda>t. if t < dstEnd - 14400000 then - 14400000 else - 18000000)\<rparr>"

text \<open>
  A load at 12:00 UTC on that day, over a file with one entry written 24 hours and 30
  minutes earlier.
\<close>

definition dstLoadTime :: int where
  "dstLoadTime = dstEnd + 6 * 3600000"

definition dstEntry :: ConversationEntry where
  "dstEntry =
     \<lparr>timestamp = dstLoadTime - 88200000, tool = ''consult_ai'', provider = ''claude'',
      query = ''question'', response = ''answer'', contextFiles = [], tokenCount = 7\<rparr>"

definition dstFile :: HistoryManager where
  "dstFile = new_HistoryManager (Stored [dstEntry])"

section \<open>ContextManager\<close>

record ProjectContext =
  readme :: string
  packageJson :: string
  structureText :: string
  lastUpdated :: int

definition MAX_CONTEXT_TOKENS :: nat where
  "MAX_CONTEXT_TOKENS = 8000"

definition PROJECT_CONTEXT_TTL :: int where
  "PROJECT_CONTEXT_TTL = 5 * 60 * 1000"

text \<open>An entry of \<^verbatim>\<open>readdir(dir, {withFileTypes: true})\<close>.\<close>

record Dirent =
  name :: string
  isDirectory :: bool

text \<open>
  What the process and the file system answer during one call of
  \<^verbatim>\<open>getProjectContext\<close>: the workspace of the \<^verbatim>\<open>WorkspaceManager\<close> (\<open>None\<close> for
  \<^verbatim>\<open>null\<close>), \<^verbatim>\<open>process.cwd()\<close> (\<open>None\<close> when it throws, as it does once the
  directory is gone), and for each path what \<^verbatim>\<open>readFile\<close> and \<^verbatim>\<open>readdir\<close> give
  (\<open>None\<close> when they reject).
\<close>

record Env =
  dynamicWorkspace :: "string option"
  cwd :: "string option"
  readFile :: "string \<Rightarrow> string option"
  readdir :: "string \<Rightarrow> Dirent list option"

text \<open>\<^verbatim>\<open>path.join(dir, file)\<close> for a directory path and a file name.\<close>

definition pathJoin :: "string \<Rightarrow> string \<Rightarrow> string" where
  "pathJoin dir f = dir @ ''/'' @ f"

text \<open>
  \<^verbatim>\<open>getCurrentWorkspaceDir\<close>; \<open>None\<close> is an exception. The test
  \<^verbatim>\<open>if (dynamicWorkspace)\<close> fails for \<^verbatim>\<open>null\<close> and for the empty string.
\<close>

definition getCurrentWorkspaceDir :: "Env \<Rightarrow> string option" where
  "getCurrentWorkspaceDir env =
     (case dynamicWorkspace env of
        None \<Rightarrow> cwd env
      | Some d \<Rightarrow> if d \<noteq> [] then Some d else cwd env)"

text \<open>\<^verbatim>\<open>readFileIfExists\<close>: the content, or \<^verbatim>\<open>null\<close> on any failure.\<close>

definition readFileIfExists :: "Env \<Rightarrow> string \<Rightarrow> string option" where
  "readFileIfExists env filePath = readFile env filePath"

text \<open>\<^verbatim>\<open>r || d\<close> for \<open>r\<close> a string or \<^verbatim>\<open>null\<close>: the empty string is falsy too.\<close>

definition orElse :: "string option \<Rightarrow> string \<Rightarrow> string" where
  "orElse r d = (case r of None \<Rightarrow> d | Some s \<Rightarrow> if s = [] then d else s)"

definition getProjectStructure :: "Env \<Rightarrow> string \<Rightarrow> string" where
  "getProjectStructure env workspaceDir =
     (case readdir env workspaceDir of
        None \<Rightarrow> ''Error reading project structure''
      | Some items \<Rightarrow>
          join ''\<newline>''
            (sort
              (map (\<lambda>item. if isDirectory item then name item @ ''/'' else name item)
                (filter (\<lambda>item. \<not> prefix ''.'' (name item)
                                \<or> name item \<in> set [''.github'', ''.vscode''])
                   items))))"

text \<open>
  \<^verbatim>\<open>getProjectContext\<close> returns the snapshot and leaves the new value of the field
  \<^verbatim>\<open>this.projectContext\<close>. The \<^verbatim>\<open>catch\<close> branch returns its snapshot without
  assigning the field.
\<close>

definition getProjectContext ::
  "Env \<Rightarrow> int \<Rightarrow> ProjectContext option \<Rightarrow> ProjectContext \<times> ProjectContext option" where
  "getProjectContext env now cache =
     (if cache \<noteq> None \<and> now - lastUpdated (the cache) < PROJECT_CONTEXT_TTL
      then (the cache, cache)
      else
        (case getCurrentWorkspaceDir env of
           None \<Rightarrow>
             (\<lparr>readme = ''Error loading README.md'',
               packageJson = ''Error loading package.json'',
               structureText = ''Error determining project structure'',
               lastUpdated = now\<rparr>, cache)
         | Some workspaceDir \<Rightarrow>
             (let readme' = readFileIfExists env (pathJoin workspaceDir ''README.md'');
                  packageJson' = readFileIfExists env (pathJoin workspaceDir ''package.json'');
                  structure' = getProjectStructure env workspaceDir;
                  pc = \<lparr>readme = orElse readme' ''No README.md found'',
                        packageJson = orElse packageJson' ''No package.json found'',
                        structureText = orElse (Some structure') ''Could not determine project structure'',
                        lastUpdated = now\<rparr>
              in (pc, Some pc))))"

definition estimateTokenCount :: "string \<Rightarrow> nat" where
  "estimateTokenCount text = nat \<lceil>real (length text) / 4\<rceil>"

definition summarizeProject :: "ProjectContext \<Rightarrow> string" where
  "summarizeProject ctx =
     ''**Package Info:**\<newline>''
     @ take 500 (packageJson ctx)
     @ (if length (packageJson ctx) > 500 then ''... (truncated)'' else '''')
     @ ''\<newline>\<newline>**README:**\<newline>''
     @ take 800 (readme ctx)
     @ (if length (readme ctx) > 800 then ''... (truncated)'' else '''')
     @ ''\<newline>\<newline>**Project Structure:**\<newline>''
     @ structureText ctx"

text \<open>\<open>toISO\<close> stands for \<^verbatim>\<open>Date.prototype.toISOString\<close>.\<close>

definition formatConversationHistory :: "(int \<Rightarrow> string) \<Rightarrow> ConversationEntry list \<Rightarrow> string" where
  "formatConversationHistory toISO h =
     (if length h = 0 then ''No previous conversation history''
      else join ''\<newline>''
             (map (\<lambda>entry.
                     ''**'' @ tool entry @ ''** ('' @ provider entry @ '') - ''
                     @ toISO (timestamp entry) @ '':\<newline>Q: ''
                     @ take 200 (query entry)
                     @ (if length (query entry) > 200 then ''...'' else '''')
                     @ ''\<newline>A: ''
                     @ take 300 (response entry)
                     @ (if length (response entry) > 300 then ''...'' else '''')
                     @ ''\<newline>'')
                h))"

definition HISTORY_HEADING :: string where
  "HISTORY_HEADING = ''## Recent Conversation History''"

definition QUERY_HEADING :: string where
  "QUERY_HEADING = ''## Current Query''"

definition HISTORY_PLACEHOLDER :: string where
  "HISTORY_PLACEHOLDER =
     ''## Recent Conversation History\<newline>(Conversation history truncated due to length)\<newline>\<newline>## Current Query''"

definition TRUNCATION_MARKER :: string where
  "TRUNCATION_MARKER = ''\<newline>... (context truncated due to length)''"

definition truncateContext :: "string \<Rightarrow> string" where
  "truncateContext context =
     (let targetLength = MAX_CONTEXT_TOKENS * 4;
          fallback = take targetLength context @ TRUNCATION_MARKER
      in if length context \<le> targetLength then context
         else
           (let sections = split HISTORY_HEADING context
            in if length sections = 2
               then
                 (let beforeHistory = sections ! 0;
                      afterHistory = split QUERY_HEADING (sections ! 1)
                  in if length afterHistory = 2
                     then beforeHistory @ (HISTORY_PLACEHOLDER @ afterHistory ! 1)
                     else fallback)
               else fallback))"

text \<open>
  The template of \<^verbatim>\<open>buildFullContext\<close>, with the four texts it interpolates: the
  project summary, the contents of the relevant files, the formatted history, and the
  tool and query.
\<close>

definition contextTemplate :: "string \<Rightarrow> string \<Rightarrow> string \<Rightarrow> string \<Rightarrow> string \<Rightarrow> string" where
  "contextTemplate summary fileContents historyText t q =
     ''# PROJECT CONTEXT\<newline>\<newline>## Project Overview\<newline>'' @ summary
     @ ''\<newline>\<newline>## Relevant Files\<newline>'' @ fileContents
     @ ''\<newline>\<newline>## Recent Conversation History\<newline>'' @ historyText
     @ ''\<newline>\<newline>## Current Query\<newline>Tool: '' @ t
     @ ''\<newline>Query: '' @ q
     @ ''\<newline>\<newline>---\<newline>\<newline>''"

text \<open>
  \<^verbatim>\<open>buildFullContext\<close>, after its reads: \<open>projectContext\<close> is what
  \<^verbatim>\<open>getProjectContext\<close> returned, \<open>fileContents\<close> what
  \<^verbatim>\<open>readRelevantFileContents\<close> returned and \<open>freshHistory\<close> what
  \<^verbatim>\<open>getRecentHistory(5)\<close> returned. \<open>assembledContext\<close> is the value of the
  variable \<^verbatim>\<open>context\<close> before the check of the token limit.
\<close>

definition assembledContext ::
  "(int \<Rightarrow> string) \<Rightarrow> ProjectContext \<Rightarrow> string \<Rightarrow> ConversationEntry list \<Rightarrow> string \<Rightarrow> string \<Rightarrow> string" where
  "assembledContext toISO projectContext fileContents freshHistory q t =
     contextTemplate (summarizeProject projectContext) fileContents
       (formatConversationHistory toISO freshHistory) t q"

definition buildFullContext ::
  "(int \<Rightarrow> string) \<Rightarrow> ProjectContext \<Rightarrow> string \<Rightarrow> ConversationEntry list \<Rightarrow> string \<Rightarrow> string \<Rightarrow> string" where
  "buildFullContext toISO projectContext fileContents freshHistory q t =
     (let context = assembledContext toISO projectContext fileContents freshHistory q t
      in if estimateTokenCount context > MAX_CONTEXT_TOKENS
         then truncateContext context
         else context)"

subsection \<open>The sections of a context block\<close>

text \<open>
  A block is \<open>sectioned\<close> into \<open>b\<close>, \<open>h\<close> and \<open>q\<close> when it reads \<open>b\<close>, the history
  heading, \<open>h\<close>, the query heading, \<open>q\<close>, the history heading occurs nowhere else in
  it, and the query heading occurs nowhere else after the history heading.
\<close>

definition sectioned :: "string \<Rightarrow> string \<Rightarrow> string \<Rightarrow> string \<Rightarrow> bool" where
  "sectioned context b h q \<longleftrightarrow>
     context = b @ HISTORY_HEADING @ h @ QUERY_HEADING @ q
     \<and> \<not> sublist HISTORY_HEADING (b @ butlast HISTORY_HEADING)
     \<and> \<not> sublist HISTORY_HEADING (h @ QUERY_HEADING @ q)
     \<and> \<not> sublist QUERY_HEADING (h @ butlast QUERY_HEADING)
     \<and> \<not> sublist QUERY_HEADING q"

text \<open>What the placeholder puts between the two headings.\<close>

definition COLLAPSED_HISTORY :: string where
  "COLLAPSED_HISTORY = ''\<newline>(Conversation history truncated due to length)\<newline>\<newline>''"

text \<open>The template before the history heading and after the query heading.\<close>

definition templateBefore :: "string \<Rightarrow> string \<Rightarrow> string" where
  "templateBefore summary fileContents =
     ''# PROJECT CONTEXT\<newline>\<newline>## Project Overview\<newline>'' @ summary
     @ ''\<newline>\<newline>## Relevant Files\<newline>'' @ fileContents @ ''\<newline>\<newline>''"

definition templateAfter :: "string \<Rightarrow> string \<Rightarrow> string" where
  "templateAfter t q =
     ''\<newline>Tool: '' @ t @ ''\<newline>Query: '' @ q @ ''\<newline>\<newline>---\<newline>\<newline>''"

text \<open>A text in which neither heading occurs.\<close>

definition noHeading :: "string \<Rightarrow> bool" where
  "noHeading text \<longleftrightarrow> \<not> sublist HISTORY_HEADING text \<and> \<not> sublist QUERY_HEADING text"

text \<open>
  A request in a project without readme and manifest, with no history and no relevant
  file, whose query is 33000 times the letter a.
\<close>

definition bareProject :: ProjectContext where
  "bareProject =
     \<lparr>readme = ''No README.md found'', packageJson = ''No package.json found'',
      structureText = ''src/'', lastUpdated = 0\<rparr>"

definition longQuery :: string where
  "longQuery = replicate 33000 CHR ''a''"

definition noDate :: "int \<Rightarrow> string" where
  "noDate d = ''''"

definition longContext :: string where
  "longContext =
     assembledContext noDate bareProject ''No relevant files found'' [] longQuery ''consult_ai''"

text \<open>
  Sample environments. In \<open>brokenEnv\<close> no workspace is set and \<^verbatim>\<open>process.cwd()\<close>
  throws, while every file could be read. In \<open>partialEnv\<close> the workspace is
  \<^verbatim>\<open>/proj\<close>, its manifest can be read and its readme cannot. \<open>staleContext\<close> is a
  snapshot taken at instant 0.
\<close>

definition brokenEnv :: Env where
  "brokenEnv =
     \<lparr>dynamicWorkspace = None, cwd = None,
      readFile = (\<lambda>p. Some ''# Demo''), readdir = (\<lambda>p. Some [])\<rparr>"

definition partialEnv :: Env where
  "partialEnv =
     \<lparr>dynamicWorkspace = Some ''/proj'', cwd = Some ''/'',
      readFile = (\<lambda>p. if p = ''/proj/package.json'' then Some ''{}'' else None),
      readdir = (\<lambda>p. if p = ''/proj''
                      then Some [\<lparr>name = ''src'', isDirectory = True\<rparr>,
                                 \<lparr>name = ''.git'', isDirectory = True\<rparr>,
                                 \<lparr>name = ''README.md'', isDirectory = False\<rparr>,
                                 \<lparr>name = ''.github'', isDirectory = True\<rparr>]
                      else None)\<rparr>"

definition staleContext :: ProjectContext where
  "staleContext =
     \<lparr>readme = ''# Old'', packageJson = ''{}'', structureText = ''src/'', lastUpdated = 0\<rparr>"

section \<open>ProviderCallManager\<close>

record ProviderCallTracker =
  provider :: string
  calls :: int
  lastReset :: int
  maxCalls :: int

type_synonym callTrackers = "string \<rightharpoonup> ProviderCallTracker"

definition MAX_CALLS_PER_PROVIDER :: int where
  "MAX_CALLS_PER_PROVIDER = 3"

definition RESET_INTERVAL :: int where
  "RESET_INTERVAL = 60 * 60 * 1000"

text \<open>\<^verbatim>\<open>Object.keys(AI_PROVIDERS)\<close>, in the order of the object literal.\<close>

definition AI_PROVIDER_KEYS :: "string list" where
  "AI_PROVIDER_KEYS = [''claude'', ''gpt4'', ''gemini'', ''ollama'']"

text \<open>The constructor: one tracker per provider key, created at \<open>now\<close>.\<close>

definition newTracker :: "int \<Rightarrow> string \<Rightarrow> ProviderCallTracker" where
  "newTracker now p =
     \<lparr>provider = p, calls = 0, lastReset = now, maxCalls = MAX_CALLS_PER_PROVIDER\<rparr>"

definition new_ProviderCallManager :: "int \<Rightarrow> callTrackers" where
  "new_ProviderCallManager now =
     fold (\<lambda>p m. m(p \<mapsto> newTracker now p)) AI_PROVIDER_KEYS Map.empty"

text \<open>
  The block shared by \<^verbatim>\<open>canMakeCall\<close> and \<^verbatim>\<open>getRemainingCalls\<close>:
  \<^verbatim>\<open>if (Date.now() - tracker.lastReset.getTime() > this.RESET_INTERVAL)
      { tracker.calls = 0; tracker.lastReset = new Date(); }\<close>
\<close>

definition resetIfElapsed :: "int \<Rightarrow> ProviderCallTracker \<Rightarrow> ProviderCallTracker" where
  "resetIfElapsed now t =
     (if now - lastReset t > RESET_INTERVAL then t\<lparr>calls := 0, lastReset := now\<rparr> else t)"

definition canMakeCall :: "int \<Rightarrow> string \<Rightarrow> callTrackers \<Rightarrow> bool \<times> callTrackers" where
  "canMakeCall now p m =
     (case m p of
        None \<Rightarrow> (False, m)
      | Some t \<Rightarrow> (let t' = resetIfElapsed now t in (calls t' < maxCalls t', m(p \<mapsto> t'))))"

definition recordCall :: "string \<Rightarrow> callTrackers \<Rightarrow> callTrackers" where
  "recordCall p m =
     (case m p of
        None \<Rightarrow> m
      | Some t \<Rightarrow> m(p \<mapsto> t\<lparr>calls := calls t + 1\<rparr>))"

definition getRemainingCalls :: "int \<Rightarrow> string \<Rightarrow> callTrackers \<Rightarrow> int \<times> callTrackers" where
  "getRemainingCalls now p m =
     (case m p of
        None \<Rightarrow> (0, m)
      | Some t \<Rightarrow>
          (let t' = resetIfElapsed now t in (max 0 (maxCalls t' - calls t'), m(p \<mapsto> t'))))"

text \<open>
  The states a \<^verbatim>\<open>ProviderCallManager\<close> can be in: the constructor's, and any state
  one of the three methods leaves behind.
\<close>

inductive reachable :: "callTrackers \<Rightarrow> bool" where
  r_new: "reachable (new_ProviderCallManager now)"
| r_can: "reachable m \<Longrightarrow> reachable (snd (canMakeCall now p m))"
| r_record: "reachable m \<Longrightarrow> reachable (recordCall p m)"
| r_remaining: "reachable m \<Longrightarrow> reachable (snd (getRemainingCalls now p m))"

text \<open>The sequence of the callers: \<^verbatim>\<open>recordCall\<close> only after \<^verbatim>\<open>canMakeCall\<close> said yes.\<close>

definition guardedCall :: "int \<Rightarrow> string \<Rightarrow> callTrackers \<Rightarrow> callTrackers" where
  "guardedCall now p m =
     (case canMakeCall now p m of (ok, m') \<Rightarrow> if ok then recordCall p m' else m')"

text \<open>What the constructor establishes and every method keeps.\<close>

definition tracker_inv :: "callTrackers \<Rightarrow> bool" where
  "tracker_inv m \<longleftrightarrow>
     (\<forall>p t. m p = Some t \<longrightarrow> maxCalls t = MAX_CALLS_PER_PROVIDER \<and> 0 \<le> calls t \<and> provider t = p)"

text \<open>A caller that checks first never drives a counter past the quota.\<close>

definition within_quota :: "callTrackers \<Rightarrow> bool" where
  "within_quota m \<longleftrightarrow> (\<forall>p t. m p = Some t \<longrightarrow> calls t \<le> maxCalls t)"

text \<open>
  A limiter built at instant 0 on which \<^verbatim>\<open>recordCall('claude')\<close> ran four times
  with no check in between.
\<close>

definition fourCalls :: callTrackers where
  "fourCalls =
     recordCall ''claude'' (recordCall ''claude'' (recordCall ''claude''
       (recordCall ''claude'' (new_ProviderCallManager 0))))"

section \<open>AICollaborationServer.retryWithBackoff\<close>

text \<open>
  What an operation can throw: an \<^verbatim>\<open>Error\<close> with its message, or a value that is
  not an \<^verbatim>\<open>instanceof Error\<close>.
\<close>

datatype thrown = Error string | NonError

text \<open>
  The test of the \<^verbatim>\<open>catch\<close> block on \<^verbatim>\<open>error.message.toLowerCase()\<close>.
\<close>

definition nonRetryableMessage :: "string \<Rightarrow> bool" where
  "nonRetryableMessage msg =
     (let errorMessage = toLowerCase msg
      in includesStr errorMessage ''401'' \<or> includesStr errorMessage ''403''
         \<or> includesStr errorMessage ''invalid api key''
         \<or> includesStr errorMessage ''unauthorized'')"

fun nonRetryable :: "thrown \<Rightarrow> bool" where
  "nonRetryable (Error msg) = nonRetryableMessage msg"
| "nonRetryable NonError = False"

text \<open>
  An operation may answer differently each time it is invoked: \<open>operation n\<close> is the
  outcome of the invocation that follows \<open>n\<close> earlier ones, \<open>Inl\<close> what it throws and
  \<open>Inr\<close> what it returns. The result of \<^verbatim>\<open>retryWithBackoff\<close> records the outcome
  (\<open>Inl\<close> what is thrown to the caller), how often the operation was invoked, and the
  delays passed to \<^verbatim>\<open>setTimeout\<close>, in order.
\<close>

record 'a RetryResult =
  outcome :: "thrown + 'a"
  invocations :: nat
  delays :: "int list"

text \<open>
  The loop \<^verbatim>\<open>for (let attempt = 0; attempt <= maxRetries; attempt++)\<close>, entered with
  the current \<open>attempt\<close>, the last error caught, the number of invocations and the delays
  so far.
\<close>

function retryLoop ::
  "(nat \<Rightarrow> thrown + 'a) \<Rightarrow> int \<Rightarrow> int \<Rightarrow> nat \<Rightarrow> thrown \<Rightarrow> nat \<Rightarrow> int list \<Rightarrow> 'a RetryResult" where
  "retryLoop operation maxRetries baseDelay attempt lastError n ds =
     (if int attempt \<le> maxRetries
      then
        (case operation n of
           Inr v \<Rightarrow> \<lparr>outcome = Inr v, invocations = n + 1, delays = ds\<rparr>
         | Inl err \<Rightarrow>
             if nonRetryable err
             then \<lparr>outcome = Inl err, invocations = n + 1, delays = ds\<rparr>
             else if int attempt = maxRetries
             then \<lparr>outcome = Inl err, invocations = n + 1, delays = ds\<rparr>
             else retryLoop operation maxRetries baseDelay (attempt + 1) err (n + 1)
                    (ds @ [baseDelay * 2 ^ attempt]))
      else \<lparr>outcome = Inl lastError, invocations = n, delays = ds\<rparr>)"
  by pat_completeness auto
termination
  by (relation "measure (\<lambda>(operation, maxRetries, baseDelay, attempt, lastError, n, ds).
                           nat (maxRetries + 1 - int attempt))") auto

definition retryWithBackoff :: "(nat \<Rightarrow> thrown + 'a) \<Rightarrow> int \<Rightarrow> int \<Rightarrow> 'a RetryResult" where
  "retryWithBackoff operation maxRetries baseDelay =
     retryLoop operation maxRetries baseDelay 0 (Error ''Unknown error'') 0 []"

text \<open>An operation all of whose failures are transient.\<close>

definition transient :: "(nat \<Rightarrow> thrown + 'a) \<Rightarrow> bool" where
  "transient operation \<longleftrightarrow> (\<forall>n err. operation n = Inl err \<longrightarrow> \<not> nonRetryable err)"

text \<open>
  The markers of a failure that is not retried, and what it is for a message to contain
  one of them as a substring, compared without regard to case.
\<close>

definition NON_RETRYABLE_MARKERS :: "string list" where
  "NON_RETRYABLE_MARKERS = [''401'', ''403'', ''invalid api key'', ''unauthorized'']"

definition containsMarker :: "string \<Rightarrow> bool" where
  "containsMarker msg \<longleftrightarrow>
     (\<exists>s. sublist s msg \<and> toLowerCase s \<in> set NON_RETRYABLE_MARKERS)"

text \<open>The loop is unfolded by the lemmas below, one iteration at a time.\<close>

declare retryLoop.simps [simp del]

text \<open>Sample operations: one that always answers 401, one that fails three times with a
  reset connection and then succeeds, one that is always unavailable.\<close>

definition always401 :: "nat \<Rightarrow> thrown + string" where
  "always401 n = Inl (Error ''Claude API error (401): Unauthorized'')"

definition flaky :: "nat \<Rightarrow> thrown + string" where
  "flaky n = (if n < 3 then Inl (Error ''read ECONNRESET'') else Inr ''pong'')"

definition alwaysDown :: "nat \<Rightarrow> thrown + string" where
  "alwaysDown n = Inl (Error ''Ollama API error (503): overloaded'')"

section \<open>Properties of the conversation history\<close>

lemma history_persistHistory: "history (persistHistory ok st) = history st"
  by (simp add: persistHistory_def)

lemma history_addEntry:
  "history (addEntry ok now entry st)
     = take MAX_HISTORY_ENTRIES (entry\<lparr>timestamp := now\<rparr> # history st)"
  by (simp add: addEntry_def Let_def history_persistHistory)

lemma history_addEntries:
  "history (addEntries cs st) = take MAX_HISTORY_ENTRIES (rev (map stamped cs) @ history st)"
    if "length (history st) \<le> MAX_HISTORY_ENTRIES"
  using that
proof (induction cs arbitrary: st)
  case Nil
  then show ?case by simp
next
  case (Cons c cs)
  obtain ok now e where c: "c = (ok, now, e)" by (cases c)
  let ?st = "addEntry ok now e st"
  have l: "length (history ?st) \<le> MAX_HISTORY_ENTRIES"
    by (simp add: history_addEntry)
  have "history (addEntries (c # cs) st)
          = take MAX_HISTORY_ENTRIES (rev (map stamped cs) @ history ?st)"
    using Cons.IH [OF l] c by simp
  also have "\<dots> = take MAX_HISTORY_ENTRIES
                      (rev (map stamped cs) @ stamped c # history st)"
    by (simp add: history_addEntry c stamped_def take_append min_def)
  finally show ?case by simp
qed

lemma stamped_sampleCall_inj:
  "stamped (sampleCall i) = stamped (sampleCall j) \<longleftrightarrow> i = j"
  by (auto simp: stamped_def sampleCall_def)

lemma newest_twenty: "take 20 (rev [1..<26]) = rev [6..<26]"
  by code_simp

lemma managed_bounds:
  "managed st \<Longrightarrow>
     length (history st) \<le> MAX_HISTORY_ENTRIES \<and> storedCount (fileContent st) \<le> MAX_HISTORY_ENTRIES"
proof (induction rule: managed.induct)
  case (m_new f)
  then show ?case by (simp add: new_HistoryManager_def)
next
  case (m_load st tz ok now)
  show ?case
  proof (cases "fileContent st")
    case (Stored allEntries)
    let ?kept = "filter (\<lambda>entry. timestamp entry > hoursBefore tz now MAX_AGE_HOURS) allEntries"
    have "length ?kept \<le> length allEntries" by simp
    moreover have "length allEntries \<le> MAX_HISTORY_ENTRIES"
      using m_load.IH Stored by (simp add: storedCount_def)
    ultimately have "length ?kept \<le> MAX_HISTORY_ENTRIES" by (rule le_trans)
    then show ?thesis
      using m_load.IH Stored
      by (simp add: loadHistory_def Let_def persistHistory_def storedCount_def)
  qed (use m_load.IH in \<open>simp_all add: loadHistory_def\<close>)
next
  case (m_add st ok now entry)
  then show ?case
    by (simp add: addEntry_def Let_def persistHistory_def storedCount_def)
qed

text \<open>
  Claim C5. \<^verbatim>\<open>addEntry\<close> leaves at most 20 entries whatever it was given: the new
  entry goes to the front and the first 20 of the result are kept, so what is dropped is
  dropped from the tail. A manager never holds more than 20 entries, whether it starts
  empty or loads a file of its own. After 25 calls in sequence it holds the entries of
  calls 25 down to 6, in this order, and none of the entries of calls 1 to 5.
\<close>

theorem history_capacity:
  "length (history (addEntry ok now entry st)) \<le> 20
   \<and> history (addEntry ok now entry st) = take 20 (entry\<lparr>timestamp := now\<rparr> # history st)
   \<and> (managed st \<longrightarrow> length (history st) \<le> 20)
   \<and> length (history (addEntries cs (new_HistoryManager f))) \<le> 20
   \<and> history (addEntries (map sampleCall [1..<26]) (new_HistoryManager f))
        = map (stamped \<circ> sampleCall) (rev [6..<26])
   \<and> length (history (addEntries (map sampleCall [1..<26]) (new_HistoryManager f))) = 20
   \<and> set (map (stamped \<circ> sampleCall) [1..<6])
         \<inter> set (history (addEntries (map sampleCall [1..<26]) (new_HistoryManager f))) = {}"
proof -
  have e: "length (history (new_HistoryManager f)) \<le> MAX_HISTORY_ENTRIES"
    by (simp add: new_HistoryManager_def)
  have a: "history (addEntry ok now entry st) = take 20 (entry\<lparr>timestamp := now\<rparr> # history st)"
    by (simp add: history_addEntry MAX_HISTORY_ENTRIES_def)
  have m: "managed st \<longrightarrow> length (history st) \<le> 20"
    using managed_bounds [of st] by (simp add: MAX_HISTORY_ENTRIES_def)
  have b: "length (history (addEntries cs (new_HistoryManager f))) \<le> 20"
    by (simp add: history_addEntries [OF e] MAX_HISTORY_ENTRIES_def)
  have "history (addEntries (map sampleCall [1..<26]) (new_HistoryManager f))
          = map (stamped \<circ> sampleCall) (take 20 (rev [1..<26]))"
    unfolding history_addEntries [OF e]
    by (simp only: new_HistoryManager_def MAX_HISTORY_ENTRIES_def HistoryManager.simps
                   append_Nil2 map_map rev_map take_map)
  then have c: "history (addEntries (map sampleCall [1..<26]) (new_HistoryManager f))
          = map (stamped \<circ> sampleCall) (rev [6..<26])"
    by (simp only: newest_twenty)
  have d: "set (map (stamped \<circ> sampleCall) [1..<6])
             \<inter> set (map (stamped \<circ> sampleCall) (rev [6..<26])) = {}"
    by (auto simp: stamped_sampleCall_inj)
  show ?thesis unfolding c using a m b d by simp
qed

theorem history_capacity_witness:
  "managed (loadHistory utcZone True 100000000 staleFile)
   \<and> length (history (loadHistory utcZone True 100000000 staleFile)) \<le> 20"
proof -
  have "storedCount (Stored [stamped (sampleCall 5), stamped (sampleCall 90000000)])
          \<le> MAX_HISTORY_ENTRIES"
    by (simp add: storedCount_def MAX_HISTORY_ENTRIES_def)
  then have "managed staleFile" unfolding staleFile_def by (rule m_new)
  then have m: "managed (loadHistory utcZone True 100000000 staleFile)" by (rule m_load)
  with history_capacity [of True 0 "stamped (sampleCall 5)" "loadHistory utcZone True 100000000 staleFile" "[]" Missing]
  show ?thesis by blast
qed

lemma filter_dropped_iff:
  "length xs \<noteq> length (filter P xs) \<longleftrightarrow> (\<exists>x\<in>set xs. \<not> P x)"
proof -
  have "length (filter P xs) = length xs \<longleftrightarrow> (\<forall>x\<in>set xs. P x)"
    by (metis filter_True length_filter_less less_irrefl)
  then show ?thesis by auto
qed

lemma hoursBefore_constant_offset:
  assumes "\<And>t. offsetAtUTC tz t = c" and "\<And>t. offsetAtLocal tz t = c"
  shows "hoursBefore tz now h = now - h * 3600000"
  by (simp add: hoursBefore_def LocalTime_def UTC_def assms)

text \<open>
  What \<^verbatim>\<open>loadHistory\<close> does with a file holding \<open>allEntries\<close>: the history is the
  entries newer than the cutoff; when one was dropped the trimmed history is handed to
  \<^verbatim>\<open>writeFile\<close> at once and is what the file holds when the write succeeds; when none
  was dropped nothing is written.
\<close>

lemma loadHistory_cutoff:
  assumes "fileContent st = Stored allEntries"
  shows "history (loadHistory tz ok now st)
           = filter (\<lambda>entry. timestamp entry > hoursBefore tz now MAX_AGE_HOURS) allEntries
       \<and> ((\<exists>entry\<in>set allEntries. entry \<notin> set (history (loadHistory tz ok now st))) \<longrightarrow>
             writes (loadHistory tz ok now st) = writes st @ [history (loadHistory tz ok now st)]
             \<and> (ok \<longrightarrow> fileContent (loadHistory tz ok now st)
                          = Stored (history (loadHistory tz ok now st))))
       \<and> ((\<forall>entry\<in>set allEntries. entry \<in> set (history (loadHistory tz ok now st))) \<longrightarrow>
             writes (loadHistory tz ok now st) = writes st
             \<and> fileContent (loadHistory tz ok now st) = fileContent st)"
proof -
  let ?keep = "\<lambda>entry. timestamp entry > hoursBefore tz now MAX_AGE_HOURS"
  have h: "history (loadHistory tz ok now st) = filter ?keep allEntries"
    using assms by (simp add: loadHistory_def Let_def history_persistHistory)
  have dropped: "(\<exists>entry\<in>set allEntries. entry \<notin> set (filter ?keep allEntries))
                   \<longleftrightarrow> length allEntries \<noteq> length (filter ?keep allEntries)"
    unfolding filter_dropped_iff by auto
  have w: "length allEntries \<noteq> length (filter ?keep allEntries) \<Longrightarrow>
             writes (loadHistory tz ok now st) = writes st @ [filter ?keep allEntries]
             \<and> (ok \<longrightarrow> fileContent (loadHistory tz ok now st) = Stored (filter ?keep allEntries))"
    using assms by (simp add: loadHistory_def Let_def persistHistory_def)
  have n: "length allEntries = length (filter ?keep allEntries) \<Longrightarrow>
             writes (loadHistory tz ok now st) = writes st
             \<and> fileContent (loadHistory tz ok now st) = fileContent st"
    using assms by (simp add: loadHistory_def Let_def)
  show ?thesis
    unfolding h using w n dropped by auto
qed

text \<open>
  In a zone whose offset from UTC never changes the cutoff is 24 hours before \<open>now\<close>, and
  no entry older than that is in the history after a load.
\<close>

lemma loadHistory_constant_offset:
  assumes "fileContent st = Stored allEntries"
    and "\<And>t. offsetAtUTC tz t = c" and "\<And>t. offsetAtLocal tz t = c"
  shows "history (loadHistory tz ok now st)
           = filter (\<lambda>entry. timestamp entry > now - 24 * 3600000) allEntries
       \<and> (\<forall>entry\<in>set allEntries.
             timestamp entry < now - 24 * 3600000 \<longrightarrow>
             entry \<notin> set (history (loadHistory tz ok now st)))"
proof -
  have "hoursBefore tz now MAX_AGE_HOURS = now - 24 * 3600000"
    using hoursBefore_constant_offset [OF assms(2,3)] by (simp add: MAX_AGE_HOURS_def)
  then show ?thesis
    using loadHistory_cutoff [OF assms(1), of tz ok now] by auto
qed

lemma easternZone_cutoff:
  "hoursBefore easternZone dstLoadTime MAX_AGE_HOURS = dstLoadTime - 25 * 3600000"
  by (simp add: hoursBefore_def LocalTime_def UTC_def easternZone_def dstLoadTime_def
                dstEnd_def MAX_AGE_HOURS_def)

text \<open>
  Claim C6 fails on the code where daylight saving ends between the cutoff and the load.
  In US Eastern time at 12:00 UTC on 2024-11-03 the cutoff that \<^verbatim>\<open>setHours\<close> computes
  lies 25 hours back. An entry written 24 hours and 30 minutes before the load, older
  than 24 hours, is still in the history after the load, and nothing is written to the
  file.
\<close>

theorem loadHistory_across_dst:
  "timestamp dstEntry < dstLoadTime - 24 * 3600000
   \<and> hoursBefore easternZone dstLoadTime MAX_AGE_HOURS = dstLoadTime - 25 * 3600000
   \<and> history (loadHistory easternZone True dstLoadTime dstFile) = [dstEntry]
   \<and> dstEntry \<in> set (history (loadHistory easternZone True dstLoadTime dstFile))
   \<and> writes (loadHistory easternZone True dstLoadTime dstFile) = []
   \<and> fileContent (loadHistory easternZone True dstLoadTime dstFile) = Stored [dstEntry]"
proof -
  have f: "fileContent dstFile = Stored [dstEntry]" and w: "writes dstFile = []"
    by (simp_all add: dstFile_def new_HistoryManager_def)
  have t: "timestamp dstEntry = dstLoadTime - 88200000"
    by (simp add: dstEntry_def)
  have k: "timestamp dstEntry > hoursBefore easternZone dstLoadTime MAX_AGE_HOURS"
    unfolding easternZone_cutoff t by simp
  have h: "history (loadHistory easternZone True dstLoadTime dstFile) = [dstEntry]"
    using loadHistory_cutoff [OF f, of easternZone True dstLoadTime] k by simp
  have "writes (loadHistory easternZone True dstLoadTime dstFile) = writes dstFile
        \<and> fileContent (loadHistory easternZone True dstLoadTime dstFile) = fileContent dstFile"
    using loadHistory_cutoff [OF f, of easternZone True dstLoadTime] unfolding h by simp
  then show ?thesis
    unfolding h using f w t easternZone_cutoff by simp
qed

lemma subseq_getRecentHistory: "subseq (getRecentHistory tz now n st) (history st)"
proof -
  let ?fresh = "filter (\<lambda>entry. timestamp entry > hoursBefore tz now CONTEXT_FRESHNESS_HOURS) (history st)"
  have "subseq (take n ?fresh) ?fresh" by (rule prefix_imp_subseq) (rule take_is_prefix)
  moreover have "subseq ?fresh (history st)" by simp
  ultimately show ?thesis
    unfolding getRecentHistory_def Let_def by (rule subseq_order.trans)
qed

lemma length_getRecentHistory: "length (getRecentHistory tz now n st) \<le> n"
  by (simp add: getRecentHistory_def Let_def)

lemma getRelevantHistory_ten:
  "getRelevantHistory tz now q t 10 st
     = filter (\<lambda>entry. weightedScore (extractKeywords q) t entry > 0.3)
         (getRecentHistory tz now 10 st)"
proof -
  have "length (filter (\<lambda>entry. weightedScore (extractKeywords q) t entry > 0.3)
                  (getRecentHistory tz now 10 st)) \<le> 10"
    using length_getRecentHistory [of tz now 10 st] length_filter_le le_trans by blast
  then show ?thesis by (simp add: getRelevantHistory_def Let_def)
qed

lemma calculateRelevance_nonneg: "0 \<le> calculateRelevance content keywords"
  by (simp add: calculateRelevance_def Let_def)

lemma same_tool_passes:
  assumes "weightedScore kw t e1 > 0.3" and "tool e2 = t"
    and "calculateRelevance (query e2 @ '' '' @ response e2) kw
           = calculateRelevance (query e1 @ '' '' @ response e1) kw"
  shows "weightedScore kw t e2 > 0.3"
proof -
  let ?r = "calculateRelevance (query e1 @ '' '' @ response e1) kw"
  have "weightedScore kw t e1 \<le> 2 * ?r"
    using calculateRelevance_nonneg [of "query e1 @ '' '' @ response e1" kw]
    by (simp add: weightedScore_def toolMatch_def)
  moreover have "weightedScore kw t e2 = 2 * ?r"
    using assms(2,3) by (simp add: weightedScore_def toolMatch_def)
  ultimately show ?thesis using assms(1) by linarith
qed

text \<open>
  Claim C7, as the code has it. Every entry that \<^verbatim>\<open>getRelevantHistory\<close> returns has
  a weighted score above 0.3, the score being the share of the query's keywords found in
  the entry, doubled when the entry's tool is the querying tool. The result keeps the
  order of the history and has at most \<open>limit\<close> entries. When a returned entry of
  another tool has the same keyword overlap as an entry of the querying tool that is
  among the ten fresh candidates, the latter passes the threshold too, and is returned
  when the limit is 10; a smaller limit can cut it off.
\<close>

theorem getRelevantHistory_threshold:
  "(\<forall>entry\<in>set (getRelevantHistory tz now q t limit st).
       weightedScore (extractKeywords q) t entry > 0.3)
   \<and> weightedScore keywords t entry
        = (if tool entry = t then 2 else 1)
          * (real (length (filter (\<lambda>keyword. sublist keyword
                                     (toLowerCase (query entry @ '' '' @ response entry)))
                             keywords))
             / real (max (length keywords) 1))
   \<and> subseq (getRelevantHistory tz now q t limit st) (history st)
   \<and> length (getRelevantHistory tz now q t limit st) \<le> limit
   \<and> (\<forall>e1 e2. e1 \<in> set (getRelevantHistory tz now q t limit st) \<and> tool e1 \<noteq> t
         \<and> e2 \<in> set (getRecentHistory tz now 10 st) \<and> tool e2 = t
         \<and> calculateRelevance (query e2 @ '' '' @ response e2) (extractKeywords q)
             = calculateRelevance (query e1 @ '' '' @ response e1) (extractKeywords q)
         \<longrightarrow> weightedScore (extractKeywords q) t e2 > 0.3
             \<and> e2 \<in> set (getRelevantHistory tz now q t 10 st))"
proof -
  let ?kw = "extractKeywords q"
  let ?pass = "\<lambda>entry. weightedScore ?kw t entry > 0.3"
  let ?r = "getRelevantHistory tz now q t limit st"
  have r: "?r = take limit (filter ?pass (getRecentHistory tz now 10 st))"
    by (simp add: getRelevantHistory_def Let_def)
  have a: "\<forall>entry\<in>set ?r. ?pass entry"
    unfolding r using in_set_takeD by fastforce
  have b: "weightedScore keywords t entry
        = (if tool entry = t then 2 else 1)
          * (real (length (filter (\<lambda>keyword. sublist keyword
                                     (toLowerCase (query entry @ '' '' @ response entry)))
                             keywords))
             / real (max (length keywords) 1))"
    by (simp add: weightedScore_def toolMatch_def calculateRelevance_def includesStr_def Let_def)
  have "subseq ?r (filter ?pass (getRecentHistory tz now 10 st))"
    unfolding r by (rule prefix_imp_subseq) (rule take_is_prefix)
  also have "subseq \<dots> (getRecentHistory tz now 10 st)" by simp
  also have "subseq \<dots> (history st)" by (rule subseq_getRecentHistory)
  finally have c: "subseq ?r (history st)" .
  have d: "length ?r \<le> limit" unfolding r by simp
  have e: "weightedScore ?kw t e2 > 0.3 \<and> e2 \<in> set (getRelevantHistory tz now q t 10 st)"
    if "e1 \<in> set ?r" "e2 \<in> set (getRecentHistory tz now 10 st)" "tool e2 = t"
       "calculateRelevance (query e2 @ '' '' @ response e2) ?kw
          = calculateRelevance (query e1 @ '' '' @ response e1) ?kw"
    for e1 e2
  proof -
    from a that(1) have "?pass e1" by blast
    then have "?pass e2" using that(3,4) by (rule same_tool_passes)
    then show ?thesis using that(2) by (simp add: getRelevantHistory_ten)
  qed
  show ?thesis using a b c d e by blast
qed

text \<open>
  Claim C7 as the specification states it fails on its last part: with limit 1 the newer
  entry of the other tool is returned and the entry of the querying tool, with the same
  keyword overlap, is not.
\<close>

theorem getRelevantHistory_threshold_counterexample:
  "crossEntry \<in> set (getRelevantHistory utcZone 2000 ''database schema'' ''consult_ai'' 1 twoEntries)
   \<and> tool crossEntry \<noteq> ''consult_ai''
   \<and> tool sameEntry = ''consult_ai''
   \<and> calculateRelevance (query sameEntry @ '' '' @ response sameEntry)
         (extractKeywords ''database schema'')
       = calculateRelevance (query crossEntry @ '' '' @ response crossEntry)
           (extractKeywords ''database schema'')
   \<and> sameEntry \<in> set (history twoEntries)
   \<and> sameEntry \<notin> set (getRelevantHistory utcZone 2000 ''database schema'' ''consult_ai'' 1 twoEntries)"
proof -
  have g: "getRelevantHistory utcZone 2000 ''database schema'' ''consult_ai'' 1 twoEntries = [crossEntry]"
    by code_simp
  have n: "sameEntry \<noteq> crossEntry" by (simp add: sameEntry_def crossEntry_def)
  have c: "query sameEntry = query crossEntry" "response sameEntry = response crossEntry"
    by (simp_all add: sameEntry_def crossEntry_def)
  show ?thesis unfolding g c using n
    by (simp add: twoEntries_def) (simp add: sameEntry_def crossEntry_def)
qed

theorem getRelevantHistory_threshold_witness:
  "sameEntry \<in> set (getRelevantHistory utcZone 2000 ''database schema'' ''consult_ai'' 10 twoEntries)
   \<and> weightedScore (extractKeywords ''database schema'') ''consult_ai'' sameEntry > 0.3"
proof -
  have g: "getRelevantHistory utcZone 2000 ''database schema'' ''consult_ai'' 1 twoEntries = [crossEntry]"
    by code_simp
  have r: "getRecentHistory utcZone 2000 10 twoEntries = [crossEntry, sameEntry]"
    by code_simp
  have c: "query sameEntry = query crossEntry" "response sameEntry = response crossEntry"
    by (simp_all add: sameEntry_def crossEntry_def)
  have t: "tool crossEntry \<noteq> ''consult_ai''" "tool sameEntry = ''consult_ai''"
    by (simp_all add: sameEntry_def crossEntry_def)
  have "crossEntry \<in> set (getRelevantHistory utcZone 2000 ''database schema'' ''consult_ai'' 1 twoEntries)
        \<and> tool crossEntry \<noteq> ''consult_ai''
        \<and> sameEntry \<in> set (getRecentHistory utcZone 2000 10 twoEntries) \<and> tool sameEntry = ''consult_ai''
        \<and> calculateRelevance (query sameEntry @ '' '' @ response sameEntry)
              (extractKeywords ''database schema'')
            = calculateRelevance (query crossEntry @ '' '' @ response crossEntry)
                (extractKeywords ''database schema'')"
    unfolding g r c using t by simp
  with getRelevantHistory_threshold
         [of utcZone 2000 "''database schema''" "''consult_ai''" 1 twoEntries]
  show ?thesis by blast
qed

text \<open>
  Claim C9. When every piece of the lower-cased query between white space has at most
  three characters or is a stop word, there are no keywords, every entry has relevance
  and weighted score 0, and \<^verbatim>\<open>getRelevantHistory\<close> returns the empty list.
\<close>

theorem no_keywords_no_history:
  assumes "\<forall>w\<in>set (splitWs [] (toLowerCase q)). length w \<le> 3 \<or> w \<in> set STOP_WORDS"
  shows "extractKeywords q = []
       \<and> (\<forall>entry. calculateRelevance (query entry @ '' '' @ response entry) (extractKeywords q) = 0
                 \<and> weightedScore (extractKeywords q) t entry = 0)
       \<and> getRelevantHistory tz now q t limit st = []"
proof -
  have k: "extractKeywords q = []"
    unfolding extractKeywords_def filter_empty_conv using assms by fastforce
  have z: "calculateRelevance content [] = 0" for content
    by (simp add: calculateRelevance_def)
  show ?thesis
    by (simp add: getRelevantHistory_def weightedScore_def z k)
qed

theorem no_keywords_no_history_witness:
  "extractKeywords ''How is THAT with you'' = []
   \<and> getRelevantHistory utcZone 2000 ''How is THAT with you'' ''consult_ai'' 5 twoEntries = []"
proof -
  have sp: "splitWs [] (toLowerCase ''How is THAT with you'')
              = [''how'', ''is'', ''that'', ''with'', ''you'']"
    by code_simp
  have h: "\<forall>w\<in>set (splitWs [] (toLowerCase ''How is THAT with you'')).
             length w \<le> 3 \<or> w \<in> set STOP_WORDS"
    unfolding sp by (simp add: STOP_WORDS_def)
  show ?thesis
    using no_keywords_no_history [OF h, of "''consult_ai''" utcZone 2000 5 twoEntries] by simp
qed

section \<open>Properties of the project context cache\<close>

lemma getProjectContext_fresh:
  "cache = Some pc \<Longrightarrow> now - lastUpdated pc < PROJECT_CONTEXT_TTL \<Longrightarrow>
   getProjectContext env now cache = (pc, cache)"
  by (simp add: getProjectContext_def)

lemma getProjectContext_refresh:
  assumes "cache = None \<or> (\<exists>pc. cache = Some pc \<and> PROJECT_CONTEXT_TTL \<le> now - lastUpdated pc)"
    and "getCurrentWorkspaceDir env = Some dir"
  shows "getProjectContext env now cache
           = (\<lparr>readme = orElse (readFile env (pathJoin dir ''README.md'')) ''No README.md found'',
               packageJson = orElse (readFile env (pathJoin dir ''package.json''))
                               ''No package.json found'',
               structureText = orElse (Some (getProjectStructure env dir))
                                 ''Could not determine project structure'',
               lastUpdated = now\<rparr>,
              Some \<lparr>readme = orElse (readFile env (pathJoin dir ''README.md'')) ''No README.md found'',
               packageJson = orElse (readFile env (pathJoin dir ''package.json''))
                               ''No package.json found'',
               structureText = orElse (Some (getProjectStructure env dir))
                                 ''Could not determine project structure'',
               lastUpdated = now\<rparr>)"
  using assms by (auto simp: getProjectContext_def readFileIfExists_def Let_def)

lemma getProjectContext_thrown:
  assumes "cache = None \<or> (\<exists>pc. cache = Some pc \<and> PROJECT_CONTEXT_TTL \<le> now - lastUpdated pc)"
    and "getCurrentWorkspaceDir env = None"
  shows "getProjectContext env now cache
           = (\<lparr>readme = ''Error loading README.md'',
               packageJson = ''Error loading package.json'',
               structureText = ''Error determining project structure'',
               lastUpdated = now\<rparr>, cache)"
  using assms by (auto simp: getProjectContext_def)

text \<open>
  Claim C8, as the code has it. A snapshot younger than five minutes is returned as it
  is and stays cached. Otherwise, when the workspace directory is found, the readme, the
  manifest and the directory listing are read again, the new snapshot is returned and
  replaces the cached one, and a read that fails gives the placeholder of its own field
  while the other fields hold what their reads gave. When finding the workspace
  directory throws, a snapshot of three error placeholders is returned and the cache is
  left as it was.
\<close>

theorem getProjectContext_cache:
  "(cache = Some pc \<and> now - lastUpdated pc < PROJECT_CONTEXT_TTL \<longrightarrow>
      getProjectContext env now cache = (pc, cache))
   \<and> ((cache = None \<or> (\<exists>pc. cache = Some pc \<and> PROJECT_CONTEXT_TTL \<le> now - lastUpdated pc)) \<longrightarrow>
        (\<forall>dir. getCurrentWorkspaceDir env = Some dir \<longrightarrow>
           fst (getProjectContext env now cache)
             = \<lparr>readme = orElse (readFile env (pathJoin dir ''README.md'')) ''No README.md found'',
                packageJson = orElse (readFile env (pathJoin dir ''package.json''))
                                ''No package.json found'',
                structureText = orElse (Some (getProjectStructure env dir))
                                  ''Could not determine project structure'',
                lastUpdated = now\<rparr>
           \<and> snd (getProjectContext env now cache) = Some (fst (getProjectContext env now cache))
           \<and> (readFile env (pathJoin dir ''README.md'') = None \<longrightarrow>
                readme (fst (getProjectContext env now cache)) = ''No README.md found'')
           \<and> (readFile env (pathJoin dir ''package.json'') = None \<longrightarrow>
                packageJson (fst (getProjectContext env now cache)) = ''No package.json found'')
           \<and> (readdir env dir = None \<longrightarrow>
                structureText (fst (getProjectContext env now cache))
                  = ''Error reading project structure''))
        \<and> (getCurrentWorkspaceDir env = None \<longrightarrow>
             getProjectContext env now cache
               = (\<lparr>readme = ''Error loading README.md'',
                   packageJson = ''Error loading package.json'',
                   structureText = ''Error determining project structure'',
                   lastUpdated = now\<rparr>, cache)))"
proof (intro conjI impI allI)
  assume "cache = Some pc \<and> now - lastUpdated pc < PROJECT_CONTEXT_TTL"
  then show "getProjectContext env now cache = (pc, cache)"
    by (simp add: getProjectContext_fresh)
next
  fix dir
  assume s: "cache = None \<or> (\<exists>pc. cache = Some pc \<and> PROJECT_CONTEXT_TTL \<le> now - lastUpdated pc)"
    and d: "getCurrentWorkspaceDir env = Some dir"
  note r = getProjectContext_refresh [OF s d]
  show "fst (getProjectContext env now cache)
             = \<lparr>readme = orElse (readFile env (pathJoin dir ''README.md'')) ''No README.md found'',
                packageJson = orElse (readFile env (pathJoin dir ''package.json''))
                                ''No package.json found'',
                structureText = orElse (Some (getProjectStructure env dir))
                                  ''Could not determine project structure'',
                lastUpdated = now\<rparr>"
    unfolding r by simp
  show "snd (getProjectContext env now cache) = Some (fst (getProjectContext env now cache))"
    unfolding r by simp
  show "readme (fst (getProjectContext env now cache)) = ''No README.md found''"
    if "readFile env (pathJoin dir ''README.md'') = None"
    unfolding r using that by (simp add: orElse_def)
  show "packageJson (fst (getProjectContext env now cache)) = ''No package.json found''"
    if "readFile env (pathJoin dir ''package.json'') = None"
    unfolding r using that by (simp add: orElse_def)
  show "structureText (fst (getProjectContext env now cache)) = ''Error reading project structure''"
    if "readdir env dir = None"
    unfolding r using that by (simp add: orElse_def getProjectStructure_def)
next
  assume "cache = None \<or> (\<exists>pc. cache = Some pc \<and> PROJECT_CONTEXT_TTL \<le> now - lastUpdated pc)"
    and "getCurrentWorkspaceDir env = None"
  then show "getProjectContext env now cache
               = (\<lparr>readme = ''Error loading README.md'',
                   packageJson = ''Error loading package.json'',
                   structureText = ''Error determining project structure'',
                   lastUpdated = now\<rparr>, cache)"
    by (rule getProjectContext_thrown)
qed

text \<open>
  Claim C8 as the specification states it fails: with a stale snapshot cached and
  \<^verbatim>\<open>process.cwd()\<close> throwing, nothing is read again (the readme is readable, the
  result holds the error placeholder) and the cached snapshot is not replaced.
\<close>

theorem getProjectContext_cache_counterexample:
  "PROJECT_CONTEXT_TTL \<le> 1000000 - lastUpdated staleContext
   \<and> readFile brokenEnv ''/proj/README.md'' = Some ''# Demo''
   \<and> readme (fst (getProjectContext brokenEnv 1000000 (Some staleContext)))
       = ''Error loading README.md''
   \<and> snd (getProjectContext brokenEnv 1000000 (Some staleContext)) = Some staleContext
   \<and> snd (getProjectContext brokenEnv 1000000 (Some staleContext))
       \<noteq> Some (fst (getProjectContext brokenEnv 1000000 (Some staleContext)))"
  by (simp add: getProjectContext_def getCurrentWorkspaceDir_def brokenEnv_def staleContext_def
                PROJECT_CONTEXT_TTL_def)

lemma partialEnv_structure:
  "getProjectStructure partialEnv ''/proj'' = ''.github/\<newline>README.md\<newline>src/''"
  unfolding getProjectStructure_def partialEnv_def by code_simp

theorem getProjectContext_cache_witness:
  "getProjectContext partialEnv 100000 (Some staleContext) = (staleContext, Some staleContext)
   \<and> fst (getProjectContext partialEnv 1000000 (Some staleContext))
       = \<lparr>readme = ''No README.md found'', packageJson = ''{}'',
          structureText = ''.github/\<newline>README.md\<newline>src/'', lastUpdated = 1000000\<rparr>
   \<and> snd (getProjectContext partialEnv 1000000 (Some staleContext))
       = Some (fst (getProjectContext partialEnv 1000000 (Some staleContext)))
   \<and> getProjectContext brokenEnv 1000000 None
       = (\<lparr>readme = ''Error loading README.md'', packageJson = ''Error loading package.json'',
           structureText = ''Error determining project structure'', lastUpdated = 1000000\<rparr>,
          None)"
proof -
  have f: "100000 - lastUpdated staleContext < PROJECT_CONTEXT_TTL"
    by (simp add: staleContext_def PROJECT_CONTEXT_TTL_def)
  have s: "Some staleContext = None
           \<or> (\<exists>pc. Some staleContext = Some pc \<and> PROJECT_CONTEXT_TTL \<le> 1000000 - lastUpdated pc)"
    by (simp add: staleContext_def PROJECT_CONTEXT_TTL_def)
  have d: "getCurrentWorkspaceDir partialEnv = Some ''/proj''"
    by (simp add: getCurrentWorkspaceDir_def partialEnv_def)
  have b: "getCurrentWorkspaceDir brokenEnv = None"
    by (simp add: getCurrentWorkspaceDir_def brokenEnv_def)
  have r: "readFile partialEnv (pathJoin ''/proj'' ''README.md'') = None"
          "readFile partialEnv (pathJoin ''/proj'' ''package.json'') = Some ''{}''"
    by (simp_all add: partialEnv_def pathJoin_def)
  have 1: "getProjectContext partialEnv 100000 (Some staleContext) = (staleContext, Some staleContext)"
    using getProjectContext_cache [of "Some staleContext" staleContext 100000 partialEnv] f by simp
  have 2: "fst (getProjectContext partialEnv 1000000 (Some staleContext))
       = \<lparr>readme = ''No README.md found'', packageJson = ''{}'',
          structureText = ''.github/\<newline>README.md\<newline>src/'', lastUpdated = 1000000\<rparr>
     \<and> snd (getProjectContext partialEnv 1000000 (Some staleContext))
       = Some (fst (getProjectContext partialEnv 1000000 (Some staleContext)))"
    using getProjectContext_cache [of "Some staleContext" staleContext 1000000 partialEnv] s d r
    by (simp add: orElse_def partialEnv_structure)
  have 3: "getProjectContext brokenEnv 1000000 None
       = (\<lparr>readme = ''Error loading README.md'', packageJson = ''Error loading package.json'',
           structureText = ''Error determining project structure'', lastUpdated = 1000000\<rparr>,
          None)"
    using getProjectContext_cache [of None staleContext 1000000 brokenEnv] b by simp
  show ?thesis using 1 2 3 by simp
qed

section \<open>Properties of split\<close>

lemma prefix_shorten:
  assumes "prefix xs (ys @ zs)" and "length xs \<le> length ys"
  shows "prefix xs ys"
proof -
  from assms(1) obtain us where "ys @ zs = xs @ us" by (auto simp: prefix_def)
  then have "take (length xs) (ys @ zs) = xs" by simp
  with assms(2) have "take (length xs) ys = xs" by simp
  then show ?thesis by (metis take_is_prefix)
qed

lemma splitOn_neq_Nil: "splitOn sep acc s \<noteq> []"
  by (induction sep acc s rule: splitOn.induct) auto

lemma splitOn_no_occurrence: "\<not> sublist sep s \<Longrightarrow> splitOn sep acc s = [rev acc @ s]"
proof (induction s arbitrary: acc)
  case Nil
  then show ?case by simp
next
  case (Cons c cs)
  then have "\<not> prefix sep (c # cs)" "\<not> sublist sep cs"
    by (simp_all add: sublist_Cons_right)
  with Cons.IH [of "c # acc"] show ?case by simp
qed

lemma splitOn_first_occurrence:
  assumes "sep \<noteq> []" and "\<not> sublist sep (a @ butlast sep)"
  shows "splitOn sep acc (a @ sep @ b) = (rev acc @ a) # splitOn sep [] b"
  using assms(2)
proof (induction a arbitrary: acc)
  case Nil
  obtain x xs where sep: "sep = x # xs" using assms(1) by (cases sep) auto
  have "splitOn sep acc (x # xs @ b) = rev acc # splitOn sep [] (drop (length sep) (x # xs @ b))"
    using sep by simp
  then show ?case using sep by simp
next
  case (Cons c a)
  from Cons.prems have np: "\<not> prefix sep (c # a @ butlast sep)"
    and ns: "\<not> sublist sep (a @ butlast sep)"
    by (simp_all add: sublist_Cons_right)
  have "c # a @ sep @ b = (c # a @ butlast sep) @ (last sep # b)"
    using assms(1) by simp
  moreover have "length sep \<le> length (c # a @ butlast sep)" by simp
  ultimately have "\<not> prefix sep (c # a @ sep @ b)"
    using np prefix_shorten by metis
  then have "splitOn sep acc ((c # a) @ sep @ b) = splitOn sep (c # acc) (a @ sep @ b)"
    by simp
  with Cons.IH [OF ns, of "c # acc"] show ?case by simp
qed

lemma first_occurrence_exists:
  assumes "sep \<noteq> []" and "sublist sep s"
  shows "\<exists>a b. s = a @ sep @ b \<and> \<not> sublist sep (a @ butlast sep)"
  using assms(2)
proof (induction s)
  case Nil
  then show ?case using assms(1) by simp
next
  case (Cons c cs)
  show ?case
  proof (cases "prefix sep (c # cs)")
    case True
    then obtain b where "c # cs = [] @ sep @ b" by (auto simp: prefix_def)
    moreover have "\<not> sublist sep ([] @ butlast sep)"
    proof -
      have "length (butlast sep) < length sep" using assms(1) by simp
      then show ?thesis using sublist_length_le [of sep "butlast sep"] by auto
    qed
    ultimately show ?thesis by blast
  next
    case False
    with Cons.prems have "sublist sep cs" by (simp add: sublist_Cons_right)
    then obtain a b where ab: "cs = a @ sep @ b" "\<not> sublist sep (a @ butlast sep)"
      using Cons.IH by blast
    have "c # cs = (c # a @ butlast sep) @ (last sep # b)"
      using assms(1) ab(1) by simp
    moreover have "length sep \<le> length (c # a @ butlast sep)" by simp
    ultimately have "\<not> prefix sep (c # a @ butlast sep)"
      using False by (metis prefix_prefix)
    with ab(2) have "\<not> sublist sep ((c # a) @ butlast sep)"
      by (simp add: sublist_Cons_right)
    with ab(1) show ?thesis by (metis append_Cons)
  qed
qed

lemma splitOn_occurrence_length:
  assumes "sep \<noteq> []" and "sublist sep s"
  shows "2 \<le> length (splitOn sep acc s)"
proof -
  obtain a b where "s = a @ sep @ b" "\<not> sublist sep (a @ butlast sep)"
    using first_occurrence_exists [OF assms] by blast
  then have "splitOn sep acc s = (rev acc @ a) # splitOn sep [] b"
    using splitOn_first_occurrence [OF assms(1)] by simp
  then show ?thesis
    using splitOn_neq_Nil [of sep "[]" b] by (cases "splitOn sep [] b") auto
qed

lemma split_two_iff:
  assumes "sep \<noteq> []"
  shows "split sep s = [x, y] \<longleftrightarrow>
           s = x @ sep @ y \<and> \<not> sublist sep (x @ butlast sep) \<and> \<not> sublist sep y"
proof
  assume r: "s = x @ sep @ y \<and> \<not> sublist sep (x @ butlast sep) \<and> \<not> sublist sep y"
  then have "splitOn sep [] s = x # splitOn sep [] y"
    using splitOn_first_occurrence [OF assms, of x "[]" y] by simp
  also have "\<dots> = [x, y]" using r by (simp add: splitOn_no_occurrence)
  finally show "split sep s = [x, y]" using assms by (simp add: split_def)
next
  assume l: "split sep s = [x, y]"
  then have l': "splitOn sep [] s = [x, y]" using assms by (simp add: split_def)
  have occ: "sublist sep s"
  proof (rule ccontr)
    assume "\<not> sublist sep s"
    then have "splitOn sep [] s = [s]" using splitOn_no_occurrence [of sep s "[]"] by simp
    with l' show False by simp
  qed
  obtain a b where ab: "s = a @ sep @ b" "\<not> sublist sep (a @ butlast sep)"
    using first_occurrence_exists [OF assms occ] by blast
  then have "splitOn sep [] s = a # splitOn sep [] b"
    using splitOn_first_occurrence [OF assms, of a "[]" b] by simp
  with l' have xa: "x = a" and yb: "splitOn sep [] b = [y]" by simp_all
  have nb: "\<not> sublist sep b"
    using splitOn_occurrence_length [OF assms, of b "[]"] yb by auto
  then have "splitOn sep [] b = [b]" using splitOn_no_occurrence [of sep b "[]"] by simp
  with yb have "y = b" by simp
  with xa ab nb show "s = x @ sep @ y \<and> \<not> sublist sep (x @ butlast sep) \<and> \<not> sublist sep y"
    by simp
qed

lemma length_two_iff: "length xs = 2 \<longleftrightarrow> (\<exists>x y. xs = [x, y])"
  by (cases xs; cases "tl xs") auto

section \<open>Properties of the context assembly\<close>

lemma over_budget_iff:
  "estimateTokenCount text > MAX_CONTEXT_TOKENS \<longleftrightarrow> length text > 32000"
proof -
  have "(8000 :: int) < \<lceil>real (length text) / 4\<rceil> \<longleftrightarrow> 8000 < real (length text) / 4"
    using less_ceiling_iff [of 8000 "real (length text) / 4"] by simp
  also have "\<dots> \<longleftrightarrow> 32000 < length text" by auto
  finally have "(8000 :: int) < \<lceil>real (length text) / 4\<rceil> \<longleftrightarrow> 32000 < length text" .
  moreover have "8000 < nat \<lceil>real (length text) / 4\<rceil>
                   \<longleftrightarrow> (8000 :: int) < \<lceil>real (length text) / 4\<rceil>"
    by linarith
  ultimately show ?thesis
    by (simp add: estimateTokenCount_def MAX_CONTEXT_TOKENS_def)
qed

lemma HISTORY_PLACEHOLDER_eq:
  "HISTORY_PLACEHOLDER = HISTORY_HEADING @ COLLAPSED_HISTORY @ QUERY_HEADING"
  by (simp add: HISTORY_PLACEHOLDER_def HISTORY_HEADING_def COLLAPSED_HISTORY_def QUERY_HEADING_def)

lemma headings_neq_Nil: "HISTORY_HEADING \<noteq> []" "QUERY_HEADING \<noteq> []"
  by (simp_all add: HISTORY_HEADING_def QUERY_HEADING_def)

lemma sectioned_split:
  "sectioned context b h q \<longleftrightarrow>
     split HISTORY_HEADING context = [b, h @ QUERY_HEADING @ q]
     \<and> split QUERY_HEADING (h @ QUERY_HEADING @ q) = [h, q]"
  unfolding sectioned_def split_two_iff [OF headings_neq_Nil(1)]
            split_two_iff [OF headings_neq_Nil(2)]
  by auto

lemma truncateContext_sectioned:
  assumes "length context > 32000" and "sectioned context b h q"
  shows "truncateContext context = b @ HISTORY_HEADING @ COLLAPSED_HISTORY @ QUERY_HEADING @ q"
  using assms unfolding sectioned_split
  by (simp add: truncateContext_def MAX_CONTEXT_TOKENS_def Let_def HISTORY_PLACEHOLDER_eq)

lemma truncateContext_fallback:
  assumes "length context > 32000" and "\<forall>b h q. \<not> sectioned context b h q"
  shows "truncateContext context = take 32000 context @ TRUNCATION_MARKER"
proof (cases "length (split HISTORY_HEADING context) = 2")
  case False
  with assms(1) show ?thesis
    by (simp add: truncateContext_def MAX_CONTEXT_TOKENS_def Let_def)
next
  case True
  then obtain b r where s1: "split HISTORY_HEADING context = [b, r]"
    unfolding length_two_iff by blast
  have "length (split QUERY_HEADING r) \<noteq> 2"
  proof
    assume "length (split QUERY_HEADING r) = 2"
    then obtain h q where s2: "split QUERY_HEADING r = [h, q]"
      unfolding length_two_iff by blast
    then have "r = h @ QUERY_HEADING @ q"
      unfolding split_two_iff [OF headings_neq_Nil(2)] by simp
    with s1 s2 have "sectioned context b h q" unfolding sectioned_split by simp
    with assms(2) show False by blast
  qed
  with assms(1) s1 show ?thesis
    by (simp add: truncateContext_def MAX_CONTEXT_TOKENS_def Let_def)
qed

lemma sublist_across:
  assumes "c \<notin> set sep"
  shows "sublist sep (xs @ c # ys) \<longleftrightarrow> sublist sep xs \<or> sublist sep ys"
proof
  assume "sublist sep (xs @ c # ys)"
  then consider "sublist sep xs" | "sublist sep (c # ys)"
    | xs1 xs2 where "sep = xs1 @ xs2" "suffix xs1 xs" "prefix xs2 (c # ys)"
    unfolding sublist_append by blast
  then show "sublist sep xs \<or> sublist sep ys"
  proof cases
    case 1
    then show ?thesis by simp
  next
    case 2
    then have "prefix sep (c # ys) \<or> sublist sep ys" by (simp add: sublist_Cons_right)
    moreover have "sep = []" if "prefix sep (c # ys)"
      using that assms by (cases sep) auto
    ultimately show ?thesis by auto
  next
    case 3
    have "xs2 = []" using 3(1,3) assms by (cases xs2) auto
    with 3(1,2) show ?thesis by auto
  qed
next
  assume "sublist sep xs \<or> sublist sep ys"
  then show "sublist sep (xs @ c # ys)"
    by (metis sublist_Cons_right sublist_append)
qed

lemma sublist_join:
  assumes "c \<notin> set sep" and "sep \<noteq> []"
  shows "sublist sep (join [c] segs) \<longleftrightarrow> (\<exists>seg\<in>set segs. sublist sep seg)"
proof (induction segs)
  case Nil
  then show ?case using assms(2) by simp
next
  case (Cons x segs)
  show ?case
  proof (cases segs)
    case Nil
    then show ?thesis by simp
  next
    case (Cons y ys)
    then have "join [c] (x # segs) = x @ c # join [c] segs" by simp
    then show ?thesis
      using Cons.IH sublist_across [OF assms(1), of x "join [c] segs"] by simp
  qed
qed

lemma sublist_skip:
  assumes "sep \<noteq> []" and "hd sep \<notin> set xs"
  shows "sublist sep (xs @ ys) \<longleftrightarrow> sublist sep ys"
  using assms(2)
proof (induction xs)
  case Nil
  then show ?case by simp
next
  case (Cons x xs)
  have "\<not> prefix sep (x # xs @ ys)"
    using assms(1) Cons.prems by (cases sep) auto
  with Cons show ?case by (simp add: sublist_Cons_right)
qed

lemma newline_not_in_headings:
  "CHR 0x0A \<notin> set HISTORY_HEADING" "CHR 0x0A \<notin> set QUERY_HEADING"
  by (simp_all add: HISTORY_HEADING_def QUERY_HEADING_def)

lemma hd_headings: "hd HISTORY_HEADING = CHR ''#''" "hd QUERY_HEADING = CHR ''#''"
  by (simp_all add: HISTORY_HEADING_def QUERY_HEADING_def)

lemma fixed_lines_history:
  "\<not> sublist HISTORY_HEADING ''# PROJECT CONTEXT''"
  "\<not> sublist HISTORY_HEADING ''## Project Overview''"
  "\<not> sublist HISTORY_HEADING ''## Relevant Files''"
  "\<not> sublist HISTORY_HEADING ''''"
  "\<not> sublist HISTORY_HEADING ''---''"
  "\<not> sublist HISTORY_HEADING (butlast HISTORY_HEADING)"
  "\<not> sublist HISTORY_HEADING QUERY_HEADING"
  by code_simp+

lemma fixed_lines_query:
  "\<not> sublist QUERY_HEADING ''''"
  "\<not> sublist QUERY_HEADING ''---''"
  "\<not> sublist QUERY_HEADING (butlast QUERY_HEADING)"
  by code_simp+

lemma labelled_line:
  "\<not> sublist HISTORY_HEADING (''Tool: '' @ t) \<longleftrightarrow> \<not> sublist HISTORY_HEADING t"
  "\<not> sublist HISTORY_HEADING (''Query: '' @ q) \<longleftrightarrow> \<not> sublist HISTORY_HEADING q"
  "\<not> sublist QUERY_HEADING (''Tool: '' @ t) \<longleftrightarrow> \<not> sublist QUERY_HEADING t"
  "\<not> sublist QUERY_HEADING (''Query: '' @ q) \<longleftrightarrow> \<not> sublist QUERY_HEADING q"
  using sublist_skip [OF headings_neq_Nil(1), of "''Tool: ''" t]
        sublist_skip [OF headings_neq_Nil(1), of "''Query: ''" q]
        sublist_skip [OF headings_neq_Nil(2), of "''Tool: ''" t]
        sublist_skip [OF headings_neq_Nil(2), of "''Query: ''" q]
  by (simp_all add: hd_headings)

lemma template_sectioned:
  assumes "noHeading summary" "noHeading fileContents" "noHeading historyText"
    and "noHeading t" "noHeading q"
  shows "sectioned (contextTemplate summary fileContents historyText t q)
           (templateBefore summary fileContents)
           (''\<newline>'' @ historyText @ ''\<newline>\<newline>'')
           (templateAfter t q)"
proof -
  let ?nl = "[CHR 0x0A]"
  let ?b = "templateBefore summary fileContents"
  let ?h = "''\<newline>'' @ historyText @ ''\<newline>\<newline>''"
  let ?q = "templateAfter t q"
  have ctx: "contextTemplate summary fileContents historyText t q
               = ?b @ HISTORY_HEADING @ ?h @ QUERY_HEADING @ ?q"
    by (simp add: contextTemplate_def templateBefore_def templateAfter_def
                  HISTORY_HEADING_def QUERY_HEADING_def)
  have b: "?b @ butlast HISTORY_HEADING
             = join ?nl [''# PROJECT CONTEXT'', '''', ''## Project Overview'', summary, '''',
                         ''## Relevant Files'', fileContents, '''', butlast HISTORY_HEADING]"
    by (simp add: templateBefore_def)
  have r: "?h @ QUERY_HEADING @ ?q
             = join ?nl ['''', historyText, '''', QUERY_HEADING, ''Tool: '' @ t,
                         ''Query: '' @ q, '''', ''---'', '''', '''']"
    by (simp add: templateAfter_def)
  have h: "?h @ butlast QUERY_HEADING = join ?nl ['''', historyText, '''', butlast QUERY_HEADING]"
    by simp
  have q: "?q = join ?nl ['''', ''Tool: '' @ t, ''Query: '' @ q, '''', ''---'', '''', '''']"
    by (simp add: templateAfter_def)
  note jh = sublist_join [OF newline_not_in_headings(1) headings_neq_Nil(1)]
  note jq = sublist_join [OF newline_not_in_headings(2) headings_neq_Nil(2)]
  have 1: "\<not> sublist HISTORY_HEADING (?b @ butlast HISTORY_HEADING)"
    unfolding b jh using assms(1,2) fixed_lines_history
    by (simp add: noHeading_def)
  have 2: "\<not> sublist HISTORY_HEADING (?h @ QUERY_HEADING @ ?q)"
    unfolding r jh using assms(3,4,5) fixed_lines_history labelled_line
    by (simp add: noHeading_def)
  have 3: "\<not> sublist QUERY_HEADING (?h @ butlast QUERY_HEADING)"
    unfolding h jq using assms(3) fixed_lines_query
    by (simp add: noHeading_def)
  have 4: "\<not> sublist QUERY_HEADING ?q"
    unfolding q jq using assms(4,5) fixed_lines_query labelled_line
    by (simp add: noHeading_def)
  show ?thesis unfolding sectioned_def using ctx 1 2 3 4 by blast
qed

lemma noHeading_no_hash: "CHR ''#'' \<notin> set text \<Longrightarrow> noHeading text"
proof -
  assume a: "CHR ''#'' \<notin> set text"
  have "CHR ''#'' \<in> set HISTORY_HEADING" "CHR ''#'' \<in> set QUERY_HEADING"
    by (simp_all add: HISTORY_HEADING_def QUERY_HEADING_def)
  with a show ?thesis
    unfolding noHeading_def using set_mono_sublist by blast
qed

lemma buildFullContext_collapse:
  assumes "estimateTokenCount (assembledContext toISO pc fileContents hist q t) > MAX_CONTEXT_TOKENS"
    and "sectioned (assembledContext toISO pc fileContents hist q t) b h q'"
  shows "buildFullContext toISO pc fileContents hist q t
           = b @ HISTORY_HEADING @ COLLAPSED_HISTORY @ QUERY_HEADING @ q'"
proof -
  have "length (assembledContext toISO pc fileContents hist q t) > 32000"
    using assms(1) by (simp only: over_budget_iff)
  then have "truncateContext (assembledContext toISO pc fileContents hist q t)
               = b @ HISTORY_HEADING @ COLLAPSED_HISTORY @ QUERY_HEADING @ q'"
    using assms(2) by (rule truncateContext_sectioned)
  with assms(1) show ?thesis by (simp add: buildFullContext_def Let_def)
qed

lemma buildFullContext_fallback:
  assumes "estimateTokenCount (assembledContext toISO pc fileContents hist q t) > MAX_CONTEXT_TOKENS"
    and "\<forall>b h q'. \<not> sectioned (assembledContext toISO pc fileContents hist q t) b h q'"
  shows "buildFullContext toISO pc fileContents hist q t
           = take (MAX_CONTEXT_TOKENS * 4) (assembledContext toISO pc fileContents hist q t)
             @ TRUNCATION_MARKER"
proof -
  have "length (assembledContext toISO pc fileContents hist q t) > 32000"
    using assms(1) by (simp only: over_budget_iff)
  then have "truncateContext (assembledContext toISO pc fileContents hist q t)
               = take 32000 (assembledContext toISO pc fileContents hist q t) @ TRUNCATION_MARKER"
    using assms(2) by (rule truncateContext_fallback)
  moreover have m: "MAX_CONTEXT_TOKENS * 4 = 32000" by (simp add: MAX_CONTEXT_TOKENS_def)
  ultimately show ?thesis unfolding m using assms(1) by (simp add: buildFullContext_def Let_def)
qed

lemma assembled_sectioned:
  assumes "noHeading (summarizeProject pc)" "noHeading fileContents"
    and "noHeading (formatConversationHistory toISO hist)" "noHeading t" "noHeading q"
  shows "sectioned (assembledContext toISO pc fileContents hist q t)
           (templateBefore (summarizeProject pc) fileContents)
           (''\<newline>'' @ formatConversationHistory toISO hist @ ''\<newline>\<newline>'')
           (templateAfter t q)"
  unfolding assembledContext_def using assms by (rule template_sectioned)

text \<open>
  Claim C2, as the code has it. Let the assembled block be over the budget of 8000
  estimated tokens, that is, longer than 32000 characters. If it is sectioned, each
  heading being found exactly once, the result is what stands before the history
  heading, the two headings with the placeholder line between them, and what stands
  after the query heading, both kept as they are; the length of this result is not
  checked. If it is not sectioned, the result is the first 32000 characters of the block
  followed by the truncation marker. The block is sectioned, with the project overview
  before and the tool and query after, whenever none of the texts put into the template
  contains a heading.
\<close>

theorem buildFullContext_over_budget:
  assumes "estimateTokenCount (assembledContext toISO pc fileContents hist q t) > MAX_CONTEXT_TOKENS"
  shows "(\<forall>b h q'. sectioned (assembledContext toISO pc fileContents hist q t) b h q' \<longrightarrow>
            buildFullContext toISO pc fileContents hist q t
              = b @ HISTORY_HEADING @ COLLAPSED_HISTORY @ QUERY_HEADING @ q')
       \<and> ((\<forall>b h q'. \<not> sectioned (assembledContext toISO pc fileContents hist q t) b h q') \<longrightarrow>
            buildFullContext toISO pc fileContents hist q t
              = take (MAX_CONTEXT_TOKENS * 4) (assembledContext toISO pc fileContents hist q t)
                @ TRUNCATION_MARKER)
       \<and> (noHeading (summarizeProject pc) \<and> noHeading fileContents
            \<and> noHeading (formatConversationHistory toISO hist) \<and> noHeading t \<and> noHeading q \<longrightarrow>
            buildFullContext toISO pc fileContents hist q t
              = templateBefore (summarizeProject pc) fileContents
                @ HISTORY_HEADING @ COLLAPSED_HISTORY @ QUERY_HEADING @ templateAfter t q)"
  using buildFullContext_collapse [OF assms] buildFullContext_fallback [OF assms]
        assembled_sectioned [of pc fileContents toISO hist t q]
  by blast

lemma longContext_parts:
  "noHeading (summarizeProject bareProject)" "noHeading ''No relevant files found''"
  "noHeading (formatConversationHistory noDate [])" "noHeading ''consult_ai''"
  "noHeading longQuery"
proof -
  show "noHeading (summarizeProject bareProject)"
    by (rule noHeading_no_hash) (simp add: summarizeProject_def bareProject_def)
  show "noHeading ''No relevant files found''"
    by (rule noHeading_no_hash) simp
  show "noHeading (formatConversationHistory noDate [])"
    by (rule noHeading_no_hash) (simp add: formatConversationHistory_def)
  show "noHeading ''consult_ai''"
    by (rule noHeading_no_hash) simp
  show "noHeading longQuery"
    by (rule noHeading_no_hash) (simp add: longQuery_def)
qed

lemma length_longContext: "length longContext = 33297"
  by (simp add: longContext_def assembledContext_def contextTemplate_def summarizeProject_def
                bareProject_def formatConversationHistory_def longQuery_def)

lemma longContext_over: "estimateTokenCount longContext > MAX_CONTEXT_TOKENS"
  by (simp add: over_budget_iff length_longContext)

lemma longContext_collapsed:
  "buildFullContext noDate bareProject ''No relevant files found'' [] longQuery ''consult_ai''
     = templateBefore (summarizeProject bareProject) ''No relevant files found''
       @ HISTORY_HEADING @ COLLAPSED_HISTORY @ QUERY_HEADING
       @ templateAfter ''consult_ai'' longQuery"
  using longContext_over assembled_sectioned [OF longContext_parts]
  unfolding longContext_def by (rule buildFullContext_collapse)

lemma length_longContext_collapsed:
  "length (buildFullContext noDate bareProject ''No relevant files found'' [] longQuery ''consult_ai'')
     > 33000"
  unfolding longContext_collapsed
  by (simp add: templateAfter_def longQuery_def)

text \<open>
  Claim C2 as the specification states it fails: for a query of 33000 characters the
  block is over budget, collapsing the history leaves it over budget, and the result is
  this collapsed block, not the block cut to 32000 characters with the marker.
\<close>

theorem buildFullContext_over_budget_counterexample:
  "estimateTokenCount longContext > MAX_CONTEXT_TOKENS
   \<and> estimateTokenCount
         (buildFullContext noDate bareProject ''No relevant files found'' [] longQuery ''consult_ai'')
       > MAX_CONTEXT_TOKENS
   \<and> buildFullContext noDate bareProject ''No relevant files found'' [] longQuery ''consult_ai''
       \<noteq> take (MAX_CONTEXT_TOKENS * 4) longContext @ TRUNCATION_MARKER"
proof -
  let ?r = "buildFullContext noDate bareProject ''No relevant files found'' [] longQuery ''consult_ai''"
  have a: "estimateTokenCount ?r > MAX_CONTEXT_TOKENS"
    unfolding over_budget_iff using length_longContext_collapsed by simp
  have "length (take (MAX_CONTEXT_TOKENS * 4) longContext @ TRUNCATION_MARKER) = 32038"
    by (simp add: length_longContext MAX_CONTEXT_TOKENS_def TRUNCATION_MARKER_def)
  then have "length ?r \<noteq> length (take (MAX_CONTEXT_TOKENS * 4) longContext @ TRUNCATION_MARKER)"
    using length_longContext_collapsed by simp
  then have b: "?r \<noteq> take (MAX_CONTEXT_TOKENS * 4) longContext @ TRUNCATION_MARKER"
    by metis
  show ?thesis using longContext_over a b by simp
qed

theorem buildFullContext_over_budget_witness:
  "buildFullContext noDate bareProject ''No relevant files found'' [] longQuery ''consult_ai''
     = templateBefore (summarizeProject bareProject) ''No relevant files found''
       @ HISTORY_HEADING @ COLLAPSED_HISTORY @ QUERY_HEADING
       @ templateAfter ''consult_ai'' longQuery"
proof -
  have o: "estimateTokenCount
             (assembledContext noDate bareProject ''No relevant files found'' [] longQuery ''consult_ai'')
           > MAX_CONTEXT_TOKENS"
    using longContext_over by (simp only: longContext_def)
  show ?thesis
    using buildFullContext_over_budget [OF o] longContext_parts by blast
qed

section \<open>Properties of the rate limiter\<close>

lemma new_ProviderCallManager_lookup:
  "new_ProviderCallManager now p =
     (if p \<in> set AI_PROVIDER_KEYS then Some (newTracker now p) else None)"
  by (simp add: new_ProviderCallManager_def AI_PROVIDER_KEYS_def)

lemma tracker_inv_init: "tracker_inv (new_ProviderCallManager now)"
  by (simp add: tracker_inv_def new_ProviderCallManager_lookup newTracker_def)

lemma tracker_inv_can: "tracker_inv m \<Longrightarrow> tracker_inv (snd (canMakeCall now p m))"
  by (auto simp: tracker_inv_def canMakeCall_def resetIfElapsed_def Let_def
           split: option.splits if_splits)

lemma tracker_inv_record: "tracker_inv m \<Longrightarrow> tracker_inv (recordCall p m)"
  by (fastforce simp: tracker_inv_def recordCall_def split: option.splits if_splits)

lemma tracker_inv_remaining: "tracker_inv m \<Longrightarrow> tracker_inv (snd (getRemainingCalls now p m))"
  by (auto simp: tracker_inv_def getRemainingCalls_def resetIfElapsed_def Let_def
           split: option.splits if_splits)

lemma reachable_inv: "reachable m \<Longrightarrow> tracker_inv m"
  by (induction rule: reachable.induct)
     (simp_all add: tracker_inv_init tracker_inv_can tracker_inv_record tracker_inv_remaining)

lemma reachable_maxCalls: "reachable m \<Longrightarrow> m p = Some t \<Longrightarrow> maxCalls t = 3"
  using reachable_inv [of m] by (simp add: tracker_inv_def MAX_CALLS_PER_PROVIDER_def)

lemma guardedCall_within_quota:
  "within_quota m \<Longrightarrow> tracker_inv m \<Longrightarrow> within_quota (guardedCall now p m)"
  by (auto simp: within_quota_def guardedCall_def canMakeCall_def recordCall_def
                 resetIfElapsed_def tracker_inv_def MAX_CALLS_PER_PROVIDER_def Let_def
           split: option.splits if_splits)

text \<open>
  Claim C1, as the code has it. For a known provider, at an instant \<open>now\<close> inside the
  tracker's window (no lazy reset is due), \<^verbatim>\<open>getRemainingCalls\<close> leaves the state as
  it is and returns \<open>max 0 (3 - calls)\<close>. So \<open>remaining + calls = 3\<close> holds exactly while
  the counter has not passed the quota, and past the quota the remaining count is 0.
\<close>

theorem remaining_plus_calls:
  assumes "reachable m" and "m p = Some t" and "now - lastReset t \<le> RESET_INTERVAL"
  shows "snd (getRemainingCalls now p m) = m
       \<and> fst (getRemainingCalls now p m) = max 0 (3 - calls t)
       \<and> (fst (getRemainingCalls now p m) + calls t = 3 \<longleftrightarrow> calls t \<le> 3)
       \<and> (3 < calls t \<longrightarrow> fst (getRemainingCalls now p m) = 0)"
proof -
  have mc: "maxCalls t = 3" using assms(1,2) by (rule reachable_maxCalls)
  have keep: "resetIfElapsed now t = t" using assms(3) by (simp add: resetIfElapsed_def)
  have upd: "m(p \<mapsto> t) = m" using assms(2) by (rule map_upd_triv)
  have s: "snd (getRemainingCalls now p m) = m"
    using assms(2) keep upd by (simp add: getRemainingCalls_def)
  have r: "fst (getRemainingCalls now p m) = max 0 (3 - calls t)"
    using assms(2) keep mc by (simp add: getRemainingCalls_def)
  show ?thesis unfolding r using s by auto
qed

theorem remaining_plus_calls_witness:
  "reachable (new_ProviderCallManager 0)
   \<and> new_ProviderCallManager 0 ''gpt4'' = Some (newTracker 0 ''gpt4'')
   \<and> 1000 - lastReset (newTracker 0 ''gpt4'') \<le> RESET_INTERVAL
   \<and> fst (getRemainingCalls 1000 ''gpt4'' (new_ProviderCallManager 0))
       + calls (newTracker 0 ''gpt4'') = 3"
proof -
  have r: "reachable (new_ProviderCallManager 0)" by (rule r_new)
  have l: "new_ProviderCallManager 0 ''gpt4'' = Some (newTracker 0 ''gpt4'')"
    by (simp add: new_ProviderCallManager_lookup AI_PROVIDER_KEYS_def)
  have w: "1000 - lastReset (newTracker 0 ''gpt4'') \<le> RESET_INTERVAL"
    by (simp add: newTracker_def RESET_INTERVAL_def)
  have c: "calls (newTracker 0 ''gpt4'') \<le> 3" by (simp add: newTracker_def)
  show ?thesis using remaining_plus_calls [OF r l w] r l w c by simp
qed

text \<open>
  Claim C1 as the specification states it fails: after four unchecked
  \<^verbatim>\<open>recordCall\<close>s inside one window the counter is 4, the remaining count is 0, and
  their sum is 4, not 3.
\<close>

lemma fourCalls_claude:
  "fourCalls ''claude'' = Some ((newTracker 0 ''claude'')\<lparr>calls := 4\<rparr>)"
  by (simp add: fourCalls_def recordCall_def new_ProviderCallManager_lookup
                AI_PROVIDER_KEYS_def newTracker_def)

theorem remaining_plus_calls_counterexample:
  "reachable fourCalls
   \<and> 1000 - lastReset (the (fourCalls ''claude'')) \<le> RESET_INTERVAL
   \<and> calls (the (fourCalls ''claude'')) = 4
   \<and> fst (getRemainingCalls 1000 ''claude'' fourCalls) = 0
   \<and> fst (getRemainingCalls 1000 ''claude'' fourCalls) + calls (the (fourCalls ''claude'')) \<noteq> 3"
proof -
  have "reachable fourCalls"
    unfolding fourCalls_def by (intro r_record r_new)
  moreover have "fst (getRemainingCalls 1000 ''claude'' fourCalls) = 0"
    by (simp add: getRemainingCalls_def fourCalls_claude resetIfElapsed_def
                  RESET_INTERVAL_def newTracker_def MAX_CALLS_PER_PROVIDER_def)
  ultimately show ?thesis
    by (simp add: fourCalls_claude newTracker_def RESET_INTERVAL_def)
qed

text \<open>
  Claim C10. \<^verbatim>\<open>recordCall\<close> on a provider without a tracker returns the state it was
  given. On a provider with a tracker it replaces that tracker by one whose counter is
  one higher and whose other fields are the old ones, whatever the age of the window,
  and every other provider keeps its tracker.
\<close>

theorem recordCall_frame:
  "(m p = None \<longrightarrow> recordCall p m = m)
   \<and> (\<forall>t. m p = Some t \<longrightarrow>
          recordCall p m p = Some (t\<lparr>calls := calls t + 1\<rparr>)
          \<and> calls (the (recordCall p m p)) = calls t + 1
          \<and> lastReset (the (recordCall p m p)) = lastReset t
          \<and> maxCalls (the (recordCall p m p)) = maxCalls t
          \<and> provider (the (recordCall p m p)) = provider t)
   \<and> (\<forall>q. q \<noteq> p \<longrightarrow> recordCall p m q = m q)
   \<and> dom (recordCall p m) = dom m"
  by (auto simp: recordCall_def split: option.splits)

theorem recordCall_frame_witness:
  "new_ProviderCallManager 0 ''mistral'' = None
   \<and> recordCall ''mistral'' (new_ProviderCallManager 0) = new_ProviderCallManager 0
   \<and> new_ProviderCallManager 0 ''claude'' = Some (newTracker 0 ''claude'')
   \<and> calls (the (recordCall ''claude'' (new_ProviderCallManager 0) ''claude'')) = 1
   \<and> lastReset (the (recordCall ''claude'' (new_ProviderCallManager 0) ''claude'')) = 0
   \<and> maxCalls (the (recordCall ''claude'' (new_ProviderCallManager 0) ''claude'')) = 3
   \<and> ''gpt4'' \<noteq> ''claude''
   \<and> recordCall ''claude'' (new_ProviderCallManager 0) ''gpt4''
       = new_ProviderCallManager 0 ''gpt4''"
proof -
  have n: "new_ProviderCallManager 0 ''mistral'' = None"
    by (simp add: new_ProviderCallManager_lookup AI_PROVIDER_KEYS_def)
  have s: "new_ProviderCallManager 0 ''claude'' = Some (newTracker 0 ''claude'')"
    by (simp add: new_ProviderCallManager_lookup AI_PROVIDER_KEYS_def)
  have d: "''gpt4'' \<noteq> ''claude''" by simp
  show ?thesis
    using recordCall_frame [of "new_ProviderCallManager 0" "''mistral''"]
          recordCall_frame [of "new_ProviderCallManager 0" "''claude''"] n s d
    by (simp add: newTracker_def MAX_CALLS_PER_PROVIDER_def)
qed

section \<open>Properties of retryWithBackoff\<close>

lemma sublist_map_iff:
  "sublist xs (map f ys) \<longleftrightarrow> (\<exists>zs. sublist zs ys \<and> map f zs = xs)"
proof
  assume "sublist xs (map f ys)"
  then obtain ps ss where "map f ys = ps @ (xs @ ss)" by (auto simp: sublist_def)
  then have "\<exists>us vs. ys = us @ vs \<and> ps = map f us \<and> xs @ ss = map f vs"
    by (simp only: map_eq_append_conv)
  then obtain us vs where u: "ys = us @ vs" "xs @ ss = map f vs" by blast
  from u(2) have "\<exists>b c. vs = b @ c \<and> xs = map f b \<and> ss = map f c"
    by (simp only: append_eq_map_conv)
  then obtain b c where "vs = b @ c" "map f b = xs" by blast
  with u(1) have "sublist b ys \<and> map f b = xs" by auto
  then show "\<exists>zs. sublist zs ys \<and> map f zs = xs" by blast
next
  assume "\<exists>zs. sublist zs ys \<and> map f zs = xs"
  then show "sublist xs (map f ys)" using map_mono_sublist by blast
qed

lemma nonRetryableMessage_iff: "nonRetryableMessage msg \<longleftrightarrow> containsMarker msg"
proof -
  have "nonRetryableMessage msg
          \<longleftrightarrow> (\<exists>marker\<in>set NON_RETRYABLE_MARKERS. sublist marker (toLowerCase msg))"
    by (simp add: nonRetryableMessage_def NON_RETRYABLE_MARKERS_def includesStr_def Let_def)
  also have "\<dots> \<longleftrightarrow> (\<exists>marker\<in>set NON_RETRYABLE_MARKERS.
                       \<exists>s. sublist s msg \<and> toLowerCase s = marker)"
    unfolding toLowerCase_def sublist_map_iff ..
  also have "\<dots> \<longleftrightarrow> containsMarker msg"
    unfolding containsMarker_def by blast
  finally show ?thesis .
qed

lemma retryLoop_success:
  "int attempt \<le> maxRetries \<Longrightarrow> operation n = Inr v \<Longrightarrow>
   retryLoop operation maxRetries baseDelay attempt lastError n ds
     = \<lparr>outcome = Inr v, invocations = n + 1, delays = ds\<rparr>"
  by (subst retryLoop.simps) simp

lemma retryLoop_fatal:
  "int attempt \<le> maxRetries \<Longrightarrow> operation n = Inl err \<Longrightarrow> nonRetryable err \<Longrightarrow>
   retryLoop operation maxRetries baseDelay attempt lastError n ds
     = \<lparr>outcome = Inl err, invocations = n + 1, delays = ds\<rparr>"
  by (subst retryLoop.simps) simp

lemma retryLoop_exhausted:
  "int attempt = maxRetries \<Longrightarrow> operation n = Inl err \<Longrightarrow>
   retryLoop operation maxRetries baseDelay attempt lastError n ds
     = \<lparr>outcome = Inl err, invocations = n + 1, delays = ds\<rparr>"
  by (subst retryLoop.simps) simp

lemma retryLoop_retry:
  "int attempt < maxRetries \<Longrightarrow> operation n = Inl err \<Longrightarrow> \<not> nonRetryable err \<Longrightarrow>
   retryLoop operation maxRetries baseDelay attempt lastError n ds
     = retryLoop operation maxRetries baseDelay (attempt + 1) err (n + 1)
         (ds @ [baseDelay * 2 ^ attempt])"
  by (subst retryLoop.simps) simp

lemma retryLoop_invocations_le:
  "invocations (retryLoop operation maxRetries baseDelay attempt lastError n ds)
     \<le> n + nat (maxRetries + 1 - int attempt)"
proof (induction operation maxRetries baseDelay attempt lastError n ds rule: retryLoop.induct)
  case (1 operation maxRetries baseDelay attempt lastError n ds)
  show ?case
  proof (cases "int attempt \<le> maxRetries")
    case False
    then show ?thesis by (subst retryLoop.simps) simp
  next
    case True
    show ?thesis
    proof (cases "operation n")
      case (Inr v)
      with True show ?thesis by (simp add: retryLoop_success)
    next
      case (Inl err)
      show ?thesis
      proof (cases "nonRetryable err \<or> int attempt = maxRetries")
        case True
        with \<open>int attempt \<le> maxRetries\<close> Inl show ?thesis
          by (auto simp: retryLoop_fatal retryLoop_exhausted)
      next
        case False
        with True Inl "1.IH" [of err] show ?thesis
          by (simp add: retryLoop_retry)
      qed
    qed
  qed
qed

text \<open>
  Claim C3. When the first invocation throws an \<^verbatim>\<open>Error\<close> whose message contains
  one of the markers 401, 403, invalid api key, unauthorized (as a substring, without
  regard to case), \<^verbatim>\<open>retryWithBackoff\<close> throws that error after this one invocation
  and without any delay. \<open>maxRetries\<close> is any number of retries, that is, not negative.
\<close>

theorem retry_non_retryable_once:
  assumes "0 \<le> maxRetries" and "operation 0 = Inl (Error msg)" and "containsMarker msg"
  shows "retryWithBackoff operation maxRetries baseDelay
           = \<lparr>outcome = Inl (Error msg), invocations = 1, delays = []\<rparr>"
  using assms by (simp add: retryWithBackoff_def retryLoop_fatal nonRetryableMessage_iff)

theorem retry_non_retryable_once_witness:
  "(0::int) \<le> 3
   \<and> always401 0 = Inl (Error ''Claude API error (401): Unauthorized'')
   \<and> containsMarker ''Claude API error (401): Unauthorized''
   \<and> retryWithBackoff always401 3 200
       = \<lparr>outcome = Inl (Error ''Claude API error (401): Unauthorized''),
          invocations = 1, delays = []\<rparr>"
proof -
  have a: "(0::int) \<le> 3" by simp
  have b: "always401 0 = Inl (Error ''Claude API error (401): Unauthorized'')"
    by (simp add: always401_def)
  have "sublist ''401'' ''Claude API error (401): Unauthorized''" by code_simp
  moreover have "toLowerCase ''401'' \<in> set NON_RETRYABLE_MARKERS"
    by (simp add: toLowerCase_def lowerChar_def NON_RETRYABLE_MARKERS_def)
  ultimately have c: "containsMarker ''Claude API error (401): Unauthorized''"
    unfolding containsMarker_def by blast
  show ?thesis using retry_non_retryable_once [of 3 always401 _ 200, OF a b c] a b c by simp
qed

lemma retryLoop_three_failures:
  assumes "operation 0 = Inl e0" "operation (Suc 0) = Inl e1" "operation (Suc (Suc 0)) = Inl e2"
    and "\<not> nonRetryable e0" "\<not> nonRetryable e1" "\<not> nonRetryable e2"
  shows "retryWithBackoff operation 3 baseDelay
           = retryLoop operation 3 baseDelay (Suc (Suc (Suc 0))) e2 (Suc (Suc (Suc 0)))
               [baseDelay * 2 ^ 0, baseDelay * 2 ^ 1, baseDelay * 2 ^ 2]"
proof -
  have "retryWithBackoff operation 3 baseDelay
          = retryLoop operation 3 baseDelay (Suc 0) e0 (Suc 0) [baseDelay * 2 ^ 0]"
    unfolding retryWithBackoff_def
    using retryLoop_retry [of 0 3 operation 0 e0] assms(1,4) by simp
  also have "\<dots> = retryLoop operation 3 baseDelay (Suc (Suc 0)) e1 (Suc (Suc 0))
                      [baseDelay * 2 ^ 0, baseDelay * 2 ^ 1]"
    using retryLoop_retry [of "Suc 0" 3 operation "Suc 0" e1] assms(2,5) by simp
  also have "\<dots> = retryLoop operation 3 baseDelay (Suc (Suc (Suc 0))) e2 (Suc (Suc (Suc 0)))
                      [baseDelay * 2 ^ 0, baseDelay * 2 ^ 1, baseDelay * 2 ^ 2]"
    using retryLoop_retry [of "Suc (Suc 0)" 3 operation "Suc (Suc 0)" e2] assms(3,6)
    by (simp add: numeral_2_eq_2)
  finally show ?thesis .
qed

text \<open>
  Claim C4. With \<open>maxRetries = 3\<close> the operation is invoked at most four times. When
  its failures are transient: if it fails three times and then returns \<open>v\<close>, it is
  invoked exactly four times, \<open>v\<close> is returned, and the delays are
  \<open>baseDelay * 2 ^ a\<close> for \<open>a = 0, 1, 2\<close>; if all four invocations fail, what the fourth
  threw is thrown to the caller, after the same three delays.
\<close>

theorem retry_transient:
  assumes "transient operation"
  shows "invocations (retryWithBackoff operation 3 baseDelay) \<le> 4
       \<and> ((\<forall>n<3. \<exists>err. operation n = Inl err) \<and> operation 3 = Inr v \<longrightarrow>
            retryWithBackoff operation 3 baseDelay
              = \<lparr>outcome = Inr v, invocations = 4,
                 delays = [baseDelay * 2 ^ 0, baseDelay * 2 ^ 1, baseDelay * 2 ^ 2]\<rparr>)
       \<and> ((\<forall>n<4. \<exists>err. operation n = Inl err) \<longrightarrow>
            retryWithBackoff operation 3 baseDelay
              = \<lparr>outcome = operation 3, invocations = 4,
                 delays = [baseDelay * 2 ^ 0, baseDelay * 2 ^ 1, baseDelay * 2 ^ 2]\<rparr>)"
proof (intro conjI impI)
  show "invocations (retryWithBackoff operation 3 baseDelay) \<le> 4"
    using retryLoop_invocations_le [of operation 3 baseDelay 0 "Error ''Unknown error''" 0 "[]"]
    by (simp add: retryWithBackoff_def)
next
  assume h: "(\<forall>n<3. \<exists>err. operation n = Inl err) \<and> operation 3 = Inr v"
  then have "\<exists>err. operation 0 = Inl err" "\<exists>err. operation (Suc 0) = Inl err"
    "\<exists>err. operation (Suc (Suc 0)) = Inl err" by simp_all
  then obtain e0 e1 e2 where e: "operation 0 = Inl e0" "operation (Suc 0) = Inl e1"
    "operation (Suc (Suc 0)) = Inl e2" by blast
  with assms have t: "\<not> nonRetryable e0" "\<not> nonRetryable e1" "\<not> nonRetryable e2"
    unfolding transient_def by blast+
  have v: "operation (Suc (Suc (Suc 0))) = Inr v" using h by (simp add: numeral_3_eq_3)
  show "retryWithBackoff operation 3 baseDelay
          = \<lparr>outcome = Inr v, invocations = 4,
             delays = [baseDelay * 2 ^ 0, baseDelay * 2 ^ 1, baseDelay * 2 ^ 2]\<rparr>"
    unfolding retryLoop_three_failures [OF e t]
    using retryLoop_success [of "Suc (Suc (Suc 0))" 3 operation "Suc (Suc (Suc 0))" v] v
    by simp
next
  assume h: "\<forall>n<4. \<exists>err. operation n = Inl err"
  then have "\<exists>err. operation 0 = Inl err" "\<exists>err. operation (Suc 0) = Inl err"
    "\<exists>err. operation (Suc (Suc 0)) = Inl err" "\<exists>err. operation 3 = Inl err" by simp_all
  then obtain e0 e1 e2 e3 where e: "operation 0 = Inl e0" "operation (Suc 0) = Inl e1"
    "operation (Suc (Suc 0)) = Inl e2" and e3: "operation 3 = Inl e3" by blast
  with assms have t: "\<not> nonRetryable e0" "\<not> nonRetryable e1" "\<not> nonRetryable e2"
    unfolding transient_def by blast+
  have l: "operation (Suc (Suc (Suc 0))) = Inl e3" using e3 by (simp add: numeral_3_eq_3)
  show "retryWithBackoff operation 3 baseDelay
          = \<lparr>outcome = operation 3, invocations = 4,
             delays = [baseDelay * 2 ^ 0, baseDelay * 2 ^ 1, baseDelay * 2 ^ 2]\<rparr>"
    unfolding retryLoop_three_failures [OF e t]
    using retryLoop_exhausted [of "Suc (Suc (Suc 0))" 3 operation "Suc (Suc (Suc 0))" e3] l e3
    by simp
qed

theorem retry_transient_witness:
  "retryWithBackoff flaky 3 200
     = \<lparr>outcome = Inr ''pong'', invocations = 4, delays = [200, 400, 800]\<rparr>
   \<and> retryWithBackoff alwaysDown 3 200
     = \<lparr>outcome = Inl (Error ''Ollama API error (503): overloaded''), invocations = 4,
        delays = [200, 400, 800]\<rparr>"
proof -
  have "\<not> nonRetryableMessage ''read ECONNRESET''"
    unfolding nonRetryableMessage_def includesStr_def toLowerCase_def Let_def by code_simp
  then have tf: "transient flaky"
    by (auto simp: transient_def flaky_def split: if_splits)
  have "\<not> nonRetryableMessage ''Ollama API error (503): overloaded''"
    unfolding nonRetryableMessage_def includesStr_def toLowerCase_def Let_def by code_simp
  then have td: "transient alwaysDown"
    by (auto simp: transient_def alwaysDown_def)
  have f: "(\<forall>n<3. \<exists>err. flaky n = Inl err) \<and> flaky 3 = Inr ''pong''"
    by (simp add: flaky_def)
  have d: "\<forall>n<4. \<exists>err. alwaysDown n = Inl err"
    by (simp add: alwaysDown_def)
  have a: "retryWithBackoff flaky 3 200
             = \<lparr>outcome = Inr ''pong'', invocations = 4,
                delays = [200 * 2 ^ 0, 200 * 2 ^ 1, 200 * 2 ^ 2]\<rparr>"
    using retry_transient [OF tf, of 200 "''pong''"] f by blast
  have b: "retryWithBackoff alwaysDown 3 200
             = \<lparr>outcome = alwaysDown 3, invocations = 4,
                delays = [200 * 2 ^ 0, 200 * 2 ^ 1, 200 * 2 ^ 2]\<rparr>"
    using retry_transient [OF td, of 200] d by blast
  show ?thesis unfolding a b by (simp add: alwaysDown_def)
qed

end
